theory Spec2Isabelle
  imports Main "HOL-Library.Sublist" "HOL-Library.Multiset"
begin

section \<open>The currency conversion tool (\<^verbatim>\<open>convert_currency\<close>)\<close>

subsection \<open>Values and their text\<close>

text \<open>
  What \<^verbatim>\<open>json.loads\<close> can hand back: \<^verbatim>\<open>None\<close>, a bool, a number, a string, a list
  or a dict with string keys. Numbers are of an arbitrary type \<open>'n\<close> (Python ints and
  floats); a dict is its items in insertion order, the keys distinct as in any Python
  dict. Strings are byte strings; the text of the tool's own messages and of currency
  codes is ASCII.
\<close>

datatype 'n json =
    JNull
  | JBool bool
  | JNum 'n
  | JStr string
  | JArr "'n json list"
  | JObj "(string \<times> 'n json) list"

text \<open>The exceptions that leave \<^verbatim>\<open>convert_currency\<close> uncaught are values.\<close>

datatype py_error = TypeError | KeyError

text \<open>
  The outcome of lines 55-56, \<^verbatim>\<open>urlopen(...)\<close>, \<^verbatim>\<open>response.read().decode("utf-8")\<close> and
  \<^verbatim>\<open>json.loads\<close>, as the three \<^verbatim>\<open>except\<close> clauses tell them apart: an
  \<^verbatim>\<open>HTTPError\<close> with its status code, any other \<^verbatim>\<open>URLError\<close> with the text of its
  reason, any other \<^verbatim>\<open>Exception\<close> (a timeout while reading, undecodable bytes, a body
  that is not JSON) with its text, or the parsed payload.
\<close>

datatype 'n fetch =
    HTTPError int
  | URLError string
  | OtherException string
  | Parsed "'n json"

record request =
  req_url :: string
  req_timeout :: nat

text \<open>
  The surroundings of one call: the process environment read by \<^verbatim>\<open>os.getenv\<close>, the
  answer of the network to a request, and the two renderings of the Python runtime that
  the messages go through, \<^verbatim>\<open>str\<close> of a number and \<^verbatim>\<open>repr\<close> of a string.
\<close>

record 'n world =
  environ :: "string \<rightharpoonup> string"
  urlopen :: "request \<Rightarrow> 'n fetch"
  num_str :: "'n \<Rightarrow> string"
  str_repr :: "string \<Rightarrow> string"

fun join_with :: "string \<Rightarrow> string list \<Rightarrow> string" where
  "join_with sep [] = []"
| "join_with sep [x] = x"
| "join_with sep (x # y # ys) = x @ sep @ join_with sep (y # ys)"

text \<open>\<^verbatim>\<open>repr\<close> of a parsed value, and \<^verbatim>\<open>str\<close>, which differs from it on a string only.\<close>

primrec py_repr :: "'n world \<Rightarrow> 'n json \<Rightarrow> string" where
  "py_repr w JNull = ''None''"
| "py_repr w (JBool b) = (if b then ''True'' else ''False'')"
| "py_repr w (JNum n) = num_str w n"
| "py_repr w (JStr s) = str_repr w s"
| "py_repr w (JArr xs) = ''['' @ join_with '', '' (map (py_repr w) xs) @ '']''"
| "py_repr w (JObj kvs) =
     ''{'' @ join_with '', ''
        (map (\<lambda>(k, r). str_repr w k @ '': '' @ r) (map (map_prod id (py_repr w)) kvs)) @ ''}''"

definition py_str :: "'n world \<Rightarrow> 'n json \<Rightarrow> string" where
  "py_str w v = (case v of JStr s \<Rightarrow> s | _ \<Rightarrow> py_repr w v)"

text \<open>Decimal text of an integer, \<^verbatim>\<open>str(exc.code)\<close>.\<close>

fun nat_str :: "nat \<Rightarrow> string" where
  "nat_str n =
     (if n < 10 then [char_of (48 + n)] else nat_str (n div 10) @ [char_of (48 + n mod 10)])"

definition int_str :: "int \<Rightarrow> string" where
  "int_str i = (if i < 0 then ''-'' @ nat_str (nat (- i)) else nat_str (nat i))"

subsection \<open>Building the request\<close>

text \<open>\<^verbatim>\<open>str.upper\<close> on ASCII text: the letters a to z move to A to Z.\<close>

definition upper_char :: "char \<Rightarrow> char" where
  "upper_char c =
     (let n = (of_char c :: nat) in if 97 \<le> n \<and> n \<le> 122 then char_of (n - 32) else c)"

definition upper :: "string \<Rightarrow> string" where
  "upper s = map upper_char s"

text \<open>
  \<^verbatim>\<open>urllib.parse.quote_plus\<close>, byte by byte: letters, digits and \<^verbatim>\<open>_.-~\<close> stay, a
  space becomes \<^verbatim>\<open>+\<close>, any other byte becomes \<^verbatim>\<open>%XX\<close> in upper-case hexadecimal.
\<close>

definition hex_digit :: "nat \<Rightarrow> char" where
  "hex_digit d = (if d < 10 then char_of (48 + d) else char_of (55 + d))"

definition always_safe :: "char \<Rightarrow> bool" where
  "always_safe c =
     (let n = (of_char c :: nat) in
        (65 \<le> n \<and> n \<le> 90) \<or> (97 \<le> n \<and> n \<le> 122) \<or> (48 \<le> n \<and> n \<le> 57)
        \<or> c \<in> set ''_.-~'')"

definition quote_char :: "char \<Rightarrow> string" where
  "quote_char c =
     (if always_safe c then [c]
      else if c = CHR '' '' then ''+''
      else CHR ''%'' # [hex_digit ((of_char c :: nat) div 16), hex_digit ((of_char c :: nat) mod 16)])"

definition quote_plus :: "string \<Rightarrow> string" where
  "quote_plus s = concat (map quote_char s)"

text \<open>
  \<^verbatim>\<open>urllib.parse.urlencode\<close> of a dict whose values are already text: \<^verbatim>\<open>k=v\<close> pairs
  joined by \<^verbatim>\<open>&\<close>, in the order of the dict.
\<close>

definition urlencode :: "(string \<times> string) list \<Rightarrow> string" where
  "urlencode q = join_with ''&'' (map (\<lambda>(k, v). quote_plus k @ ''='' @ quote_plus v) q)"

text \<open>Lines 44-52 and the argument of \<^verbatim>\<open>urlopen\<close> on line 55.\<close>

definition build_request :: "'n world \<Rightarrow> string \<Rightarrow> string \<Rightarrow> string \<Rightarrow> 'n \<Rightarrow> request" where
  "build_request w api_key from_currency to_currency amount =
     (let url = ''https://api.unirateapi.com/api/convert'';
          params = urlencode
            [(''api_key'', api_key),
             (''from'', upper from_currency),
             (''to'', upper to_currency),
             (''amount'', num_str w amount)]
      in \<lparr>req_url = url @ ''?'' @ params, req_timeout = 20\<rparr>)"

subsection \<open>Reading the payload\<close>

text \<open>
  \<^verbatim>\<open>k in payload\<close> for a string \<open>k\<close>: a key of a dict, an element of a list, a
  substring of a string; \<^verbatim>\<open>None\<close>, a bool and a number are not iterable and the test
  raises \<^verbatim>\<open>TypeError\<close>.
\<close>

fun py_contains :: "string \<Rightarrow> 'n json \<Rightarrow> py_error + bool" where
  "py_contains k (JObj kvs) = Inr (k \<in> fst ` set kvs)"
| "py_contains k (JArr xs) = Inr (JStr k \<in> set xs)"
| "py_contains k (JStr s) = Inr (sublist k s)"
| "py_contains k JNull = Inl TypeError"
| "py_contains k (JBool b) = Inl TypeError"
| "py_contains k (JNum n) = Inl TypeError"

text \<open>
  \<^verbatim>\<open>payload[k]\<close> for a string \<open>k\<close>: the value of a dict (\<^verbatim>\<open>KeyError\<close> without the
  key); a list and a string take integer indices only, and nothing else is
  subscriptable: \<^verbatim>\<open>TypeError\<close>.
\<close>

fun py_getitem :: "'n json \<Rightarrow> string \<Rightarrow> py_error + 'n json" where
  "py_getitem (JObj kvs) k = (case map_of kvs k of None \<Rightarrow> Inl KeyError | Some v \<Rightarrow> Inr v)"
| "py_getitem _ k = Inl TypeError"

text \<open>Line 65, the f-string: both subscripts, left to right, then the text.\<close>

definition success_message :: "'n world \<Rightarrow> 'n json \<Rightarrow> py_error + string" where
  "success_message w payload =
     (case py_getitem payload ''result'' of
        Inl e \<Rightarrow> Inl e
      | Inr r \<Rightarrow>
          (case py_getitem payload ''to'' of
             Inl e \<Rightarrow> Inl e
           | Inr t \<Rightarrow> Inr (''Converted amount: '' @ py_str w r @ '' '' @ py_str w t)))"

text \<open>Line 67.\<close>

definition payload_failure :: "'n world \<Rightarrow> 'n json \<Rightarrow> string" where
  "payload_failure w payload = ''Currency conversion failed: '' @ py_str w payload"

text \<open>
  Lines 64-67, outside the \<^verbatim>\<open>try\<close>: \<^verbatim>\<open>and\<close> evaluates its right operand only when
  the left one is true, and an exception of either test or of the f-string leaves the
  function.
\<close>

definition read_payload :: "'n world \<Rightarrow> 'n json \<Rightarrow> py_error + string" where
  "read_payload w payload =
     (case py_contains ''result'' payload of
        Inl e \<Rightarrow> Inl e
      | Inr False \<Rightarrow> Inr (payload_failure w payload)
      | Inr True \<Rightarrow>
          (case py_contains ''to'' payload of
             Inl e \<Rightarrow> Inl e
           | Inr False \<Rightarrow> Inr (payload_failure w payload)
           | Inr True \<Rightarrow> success_message w payload))"

subsection \<open>The tool\<close>

text \<open>
  \<^verbatim>\<open>convert_currency\<close>, lines 38-67. The result is the list of network requests the
  call made, in order, and what the call gave back: \<open>Inr\<close> the returned string, \<open>Inl\<close> an
  exception that left the function. \<^verbatim>\<open>not api_key\<close> holds for \<^verbatim>\<open>None\<close> and for the
  empty string.
\<close>

definition convert_currency ::
  "'n world \<Rightarrow> string \<Rightarrow> string \<Rightarrow> 'n \<Rightarrow> request list \<times> (py_error + string)" where
  "convert_currency w from_currency to_currency amount =
     (case environ w ''RATE_CONVERTER_API_KEY'' of
        None \<Rightarrow> ([], Inr ''Currency conversion failed: RATE_CONVERTER_API_KEY is not set.'')
      | Some api_key \<Rightarrow>
          if api_key = [] then
            ([], Inr ''Currency conversion failed: RATE_CONVERTER_API_KEY is not set.'')
          else
            (let rq = build_request w api_key from_currency to_currency amount in
               (case urlopen w rq of
                  HTTPError code \<Rightarrow>
                    ([rq], Inr (''Currency conversion failed: HTTP '' @ int_str code
                                  @ '' from UnirateAPI.''))
                | URLError reason \<Rightarrow>
                    ([rq], Inr (''Currency conversion failed: '' @ reason @ ''.''))
                | OtherException msg \<Rightarrow>
                    ([rq], Inr (''Currency conversion failed: '' @ msg @ ''.''))
                | Parsed payload \<Rightarrow> ([rq], read_payload w payload))))"

subsection \<open>A concrete world\<close>

text \<open>
  For evaluation: integers as numbers, \<^verbatim>\<open>repr\<close> of a string without quotes or escapes
  (the string between two apostrophes), a given environment and one fixed answer of the
  network.
\<close>

definition plain_repr :: "string \<Rightarrow> string" where
  "plain_repr s = CHR 0x27 # s @ [CHR 0x27]"

definition sample_world :: "(string \<rightharpoonup> string) \<Rightarrow> int fetch \<Rightarrow> int world" where
  "sample_world env answer =
     \<lparr>environ = env, urlopen = (\<lambda>rq. answer), num_str = int_str, str_repr = plain_repr\<rparr>"

definition with_key :: "string \<rightharpoonup> string" where
  "with_key = [''RATE_CONVERTER_API_KEY'' \<mapsto> ''secret'']"

section \<open>The declared pipeline\<close>

subsection \<open>Agents\<close>

text \<open>
  The tools an agent is given: the toolkits of the framework (\<^verbatim>\<open>WebSearchTools\<close> with
  its optional backend) and the function \<^verbatim>\<open>convert_currency\<close> above.
\<close>

datatype tool =
    WebSearchTools "string option"
  | TavilyTools
  | YFinanceTools
  | convert_currency_tool

text \<open>
  The keyword arguments of \<^verbatim>\<open>Agent(...)\<close>: \<open>model\<close> is the id of the \<^verbatim>\<open>Nvidia\<close>
  model, \<open>tool_call_limit\<close> is \<open>None\<close> where the declaration does not give one. Each
  agent also gets an \<^verbatim>\<open>InMemoryDb()\<close> of its own, which holds nothing at declaration.
\<close>

record agent =
  agent_name :: string
  model :: string
  tools :: "tool list"
  tool_call_limit :: "nat option"
  instructions :: "string list"
  markdown :: bool

definition weather_agent :: agent where
  "weather_agent =
     \<lparr>agent_name = ''Weather Specialist'',
      model = ''meta/llama-3.3-70b-instruct'',
      tools = [(WebSearchTools (Some ''google'')), TavilyTools],
      tool_call_limit = None,
      instructions =
       [''You are a weather and climate research specialist for travel planning.'',
        ''Return destination-specific findings only; avoid generic travel advice.'',
        ''Using the user's `destination`, `travel_dates`, and `date_flexibility`:'',
        ''- Research historical weather patterns and forecasts for the destination during the travel dates.'',
        ''- Highlight temperature ranges, precipitation likelihood, and any extreme weather risks.'',
        ''- Suggest the best time windows if dates are flexible.'',
        ''- Recommend packing essentials based on expected conditions.'',
        ''- Output exactly: Best travel window, day-level weather notes, risk alerts, and a packing checklist.''],
      markdown = True\<rparr>"

definition destination_agent :: agent where
  "destination_agent =
     \<lparr>agent_name = ''Destination Researcher'',
      model = ''meta/llama-3.3-70b-instruct'',
      tools = [(WebSearchTools (Some ''google'')), TavilyTools],
      tool_call_limit = None,
      instructions =
       [''You are a destination research specialist.'',
        ''Return concrete, destination-specific details only; avoid generic summaries.'',
        ''Using the user's `destination`, `travel_purpose`, and `travel_companions`:'',
        ''- Provide an overview of the destination: culture, language, currency, and safety tips.'',
        ''- Highlight visa/entry requirements based on `departure_location`.'',
        ''- Note any travel advisories or health precautions.'',
        ''- Tailor cultural tips to the `travel_purpose` (e.g. business etiquette vs. leisure customs).'',
        ''- Output as: Entry requirements, safety/health alerts, local norms, and practical traveler notes.''],
      markdown = True\<rparr>"

definition accommodation_agent :: agent where
  "accommodation_agent =
     \<lparr>agent_name = ''Accommodation Advisor'',
      model = ''meta/llama-3.3-70b-instruct'',
      tools = [(WebSearchTools (Some ''google''))],
      tool_call_limit = None,
      instructions =
       [''You are an accommodation research specialist.'',
        ''Give real options with approximate prices; do not provide generic hotel advice.'',
        ''Using `destination`, `accommodation_type`, `budget`, `travel_style`, `duration`, and `travel_companions`:'',
        ''- Research and recommend accommodation options matching the preferred `accommodation_type`.'',
        ''- Provide price ranges per night and total estimated cost for the `duration`.'',
        ''- Suggest neighborhoods/areas best suited for the `travel_purpose`.'',
        ''- Flag options within `budget` and note if `budget_flexibility` allows upgrades.'',
        ''- Output at least 3 named stay options.'',
        ''- Output as a table with: property name, area, nightly price, trip total, pros, and budget fit.''],
      markdown = True\<rparr>"

definition transport_agent :: agent where
  "transport_agent =
     \<lparr>agent_name = ''Transportation Specialist'',
      model = ''meta/llama-3.3-70b-instruct'',
      tools = [(WebSearchTools (Some ''google''))],
      tool_call_limit = None,
      instructions =
       [''You are a transportation research specialist.'',
        ''Provide concrete route and cost options; avoid generic transport advice.'',
        ''Using `departure_location`, `destination`, `travel_dates`, `budget`, and `travel_style`:'',
        ''- Research flight options, layovers, and estimated costs from `departure_location`.'',
        ''- Suggest local transport options at the destination (public transit, car rental, rideshare).'',
        ''- Recommend the best transport mode based on `travel_companions` (e.g. car rental for families).'',
        ''- Provide cost estimates for both intercity and local transport within `budget`.'',
        ''- Output at least 2 named transport choices (e.g., specific flight/rail/bus options).'',
        ''- Output as: outbound/inbound options, local mobility plan, estimated total transport cost.''],
      markdown = True\<rparr>"

definition activities_agent :: agent where
  "activities_agent =
     \<lparr>agent_name = ''Activities Curator'',
      model = ''meta/llama-3.3-70b-instruct'',
      tools = [(WebSearchTools (Some ''google'')), TavilyTools],
      tool_call_limit = None,
      instructions =
       [''You are an activities and experiences curator.'',
        ''Produce day-wise, bookable activities, not generic lists.'',
        ''Using `destination`, `interests_activities`, `travel_style`, `travel_companions`, and `travel_purpose`:'',
        ''- Curate a list of activities and experiences matching the user's `interests_activities`.'',
        ''- Tailor suggestions to `travel_companions` (kid-friendly, romantic, group-friendly).'',
        ''- Include estimated costs per activity and factor in the overall `budget`.'',
        ''- Organize activities by day considering weather research from the Weather Specialist.'',
        ''- Balance must-see attractions with off-the-beaten-path experiences based on `travel_style`.'',
        ''- Output as day-by-day blocks with time slot, activity, duration, cost, and booking note.''],
      markdown = True\<rparr>"

definition local_insider :: agent where
  "local_insider =
     \<lparr>agent_name = ''Local Insider'',
      model = ''meta/llama-3.3-70b-instruct'',
      tools = [(WebSearchTools (Some ''google'')), TavilyTools],
      tool_call_limit = Some 10,
      instructions =
       [''You are a local insider and cultural advisor.'',
        ''Provide practical, place-specific recommendations only.'',
        ''Using `destination`, `interests_activities`, `travel_style`, and `travel_purpose`:'',
        ''- Share hidden gems, local favorites, and insider tips not found in typical guides.'',
        ''- Recommend local restaurants, street food, and dining experiences within `budget`.'',
        ''- Provide cultural do's and don'ts specific to the destination.'',
        ''- Suggest the best local experiences for the user's `travel_companions` type.'',
        ''- Include practical tips: tipping customs, bargaining, local apps to download.'',
        ''- Output as: hidden gems, food picks, etiquette notes, and traveler hacks with areas and price ranges.''],
      markdown = True\<rparr>"

definition budget_agent :: agent where
  "budget_agent =
     \<lparr>agent_name = ''Budget Optimizer'',
      model = ''meta/llama-3.3-70b-instruct'',
      tools = [(WebSearchTools (Some ''google'')), YFinanceTools, convert_currency_tool],
      tool_call_limit = None,
      instructions =
       [''You are a travel budget optimization specialist.'',
        ''Always produce a full numeric budget, never generic money-saving advice only.'',
        ''Using `budget`, `budget_flexibility`, `duration`, `travel_style`, and all cost data from other agents:'',
        ''- Create a detailed budget breakdown: flights, accommodation, transport, activities, food, misc.'',
        ''- Identify money-saving opportunities without sacrificing the `travel_style`.'',
        ''- If total exceeds `budget`, suggest trade-offs based on `budget_flexibility`.'',
        ''- Provide a 'strict budget' plan and an 'optimal experience' plan if flexibility allows.'',
        ''- Include a contingency/emergency fund recommendation.'',
        ''- Prefer the `convert_currency` tool for currency conversion.'',
        ''- If `convert_currency` fails, fall back to YFinanceTools (e.g. USDEUR=X forex pairs).'',
        ''- Output format must include: assumptions, line-item table, totals, gap vs budget, and final recommendation.'',
        ''- Include a validated cost table with subtotal checks.'',
        ''- Subtotals must sum to the grand total exactly.'',
        ''- Show arithmetic checks explicitly (e.g., flights + stay + local transport + activities + food + misc = total).''],
      markdown = True\<rparr>"

definition booking_agent :: agent where
  "booking_agent =
     \<lparr>agent_name = ''Booking Assistant'',
      model = ''meta/llama-3.3-70b-instruct'',
      tools = [(WebSearchTools None)],
      tool_call_limit = None,
      instructions =
       [''You are a booking and itinerary compilation specialist.'',
        ''Your output is the final answer shown to the user. It must be a complete, structured travel plan.'',
        ''Do not return generic tips, high-level strategy lists, or placeholders.'',
        ''Using all research from other agents and the full travel request parameters:'',
        ''- Compile a day-by-day itinerary for the entire `duration`.'',
        ''- Include specific booking recommendations with timing and estimated costs.'',
        ''- Provide a prioritized booking order (flights first, then accommodation, then activities).'',
        ''- Add practical logistics: check-in/out times, transfer times between locations.'',
        ''- Create a summary checklist of all bookings needed with deadlines.'',
        ''- If any critical detail is missing, make a clearly labeled assumption and continue.'',
        ''- Include at least 3 named stay options and at least 2 named transport choices in the final output.'',
        ''- Budget section must include a validated cost table with explicit subtotal checks.'',
        ''- Booking timeline must include exact calendar dates derived from `travel_dates` (not generic '2 months before').'',
        ''- Final response structure must be:'',
        ''  1) Trip Summary'',
        ''  2) Day-by-Day Itinerary (morning/afternoon/evening with estimated costs)'',
        ''  3) Accommodation Plan'',
        ''  4) Transportation Plan'',
        ''  5) Budget Breakdown (totals + remaining budget/overrun)'',
        ''  6) Booking Priority Timeline'',
        ''  7) Packing + Local Tips'',
        ''  8) Final Checklist''],
      markdown = True\<rparr>"

text \<open>The agents registered with \<^verbatim>\<open>AgentOS\<close>, lines 289-298: all that the program declares.\<close>

definition agents :: "agent list" where
  "agents =
     [weather_agent, destination_agent, accommodation_agent, transport_agent,
      activities_agent, local_insider, budget_agent, booking_agent]"

subsection \<open>Input schema and workflow\<close>

text \<open>
  \<^verbatim>\<open>TravelRequest\<close>, lines 72-84: the fields in declaration order with their annotated
  types, \<^verbatim>\<open>str\<close> or \<^verbatim>\<open>List[str]\<close>. No field has a default, so each is required.
\<close>

datatype ftype = Str | ListOfStr

definition TravelRequest :: "(string \<times> ftype) list" where
  "TravelRequest =
     [(''destination'', Str),
      (''travel_purpose'', Str),
      (''travel_companions'', Str),
      (''travel_dates'', Str),
      (''departure_location'', Str),
      (''date_flexibility'', Str),
      (''accommodation_type'', Str),
      (''budget'', Str),
      (''interests_activities'', ListOfStr),
      (''travel_style'', Str),
      (''duration'', Str),
      (''budget_flexibility'', Str)]"

record step =
  step_name :: string
  step_agent :: agent

text \<open>An entry of \<^verbatim>\<open>steps\<close>: a \<^verbatim>\<open>Parallel\<close> of steps with its name, or one \<^verbatim>\<open>Step\<close>.\<close>

datatype stage = Parallel "step list" string | Step step

record workflow =
  workflow_name :: string
  description :: string
  input_schema :: "(string \<times> ftype) list"
  steps :: "stage list"

definition travel_workflow :: workflow where
  "travel_workflow =
     \<lparr>workflow_name = ''Travel Planner'',
      description = ''Multi-agent travel planning pipeline'',
      input_schema = TravelRequest,
      steps =
        [Parallel
           [\<lparr>step_name = ''Weather Research'', step_agent = weather_agent\<rparr>,
            \<lparr>step_name = ''Destination Research'', step_agent = destination_agent\<rparr>,
            \<lparr>step_name = ''Accommodation Research'', step_agent = accommodation_agent\<rparr>,
            \<lparr>step_name = ''Transport Research'', step_agent = transport_agent\<rparr>]
           ''Independent Research'',
         Step \<lparr>step_name = ''Activities Curation'', step_agent = activities_agent\<rparr>,
         Step \<lparr>step_name = ''Local Insights'', step_agent = local_insider\<rparr>,
         Step \<lparr>step_name = ''Budget Optimization'', step_agent = budget_agent\<rparr>,
         Step \<lparr>step_name = ''Final Itinerary'', step_agent = booking_agent\<rparr>]\<rparr>"

fun stage_name :: "stage \<Rightarrow> string" where
  "stage_name (Parallel members nm) = nm"
| "stage_name (Step s) = step_name s"

fun members_of :: "stage \<Rightarrow> step list" where
  "members_of (Parallel members nm) = members"
| "members_of (Step s) = [s]"

text \<open>The members of the first declared stage, lines 273-276.\<close>

definition independent_research :: "step list" where
  "independent_research = members_of (hd (steps travel_workflow))"

section \<open>The engine that runs the pipeline\<close>

text \<open>
  \<^verbatim>\<open>Workflow\<close>, \<^verbatim>\<open>Parallel\<close>, \<^verbatim>\<open>Step\<close> and \<^verbatim>\<open>Agent\<close> are classes of the framework the
  program imports; their code is not part of the source file. What they do with the
  declarations above is taken from the specification, sections 3, 4 and 5.
\<close>

subsection \<open>Validation\<close>

text \<open>
  Modelled from the spec: the check of a raw input against the input schema, which the
  source leaves to the framework. "Every field is required and must pass type/shape
  validation": a raw input is a dict of parsed values; a \<^verbatim>\<open>str\<close> field takes a string, a
  \<^verbatim>\<open>List[str]\<close> field a list whose elements are all strings.
\<close>

fun conforms :: "'n json \<Rightarrow> ftype \<Rightarrow> bool" where
  "conforms (JStr s) Str = True"
| "conforms (JArr xs) ListOfStr = list_all (\<lambda>x. case x of JStr s \<Rightarrow> True | _ \<Rightarrow> False) xs"
| "conforms _ _ = False"

text \<open>
  Modelled from the spec: the fields a \<^verbatim>\<open>ValidationError\<close> names, "the offending
  field(s)": those of the schema that the input lacks or gives with the wrong type.
\<close>

definition offending :: "(string \<times> ftype) list \<Rightarrow> (string \<rightharpoonup> 'n json) \<Rightarrow> string list" where
  "offending schema raw =
     map fst (filter (\<lambda>(f, ty). case raw f of None \<Rightarrow> True | Some v \<Rightarrow> \<not> conforms v ty) schema)"

text \<open>
  Modelled from the spec: the validation step of \<^verbatim>\<open>run\<close>, section 4.1: the input itself
  when no field offends, else the names of the offending fields.
\<close>

definition validate ::
  "(string \<times> ftype) list \<Rightarrow> (string \<rightharpoonup> 'n json) \<Rightarrow> string list + (string \<rightharpoonup> 'n json)" where
  "validate schema raw = (if offending schema raw = [] then Inr raw else Inl (offending schema raw))"

subsection \<open>Session context, agents and steps\<close>

text \<open>
  Modelled from the spec: the \<^verbatim>\<open>SessionContext\<close> of section 3, "a mapping from step
  name to that step's produced output, plus the original validated input". The outputs
  are kept in the order they were written.
\<close>

record 'n SessionContext =
  original :: "string \<rightharpoonup> 'n json"
  outputs :: "(string \<times> string) list"

text \<open>
  Modelled from the spec: the two ways an agent fails, section 4.3: its reasoning
  capability is unreachable, or it exceeds the tool-call budget.
\<close>

datatype agent_failure = Unreachable | BudgetExceeded

text \<open>
  Modelled from the spec: \<^verbatim>\<open>respond\<close> of section 4.3. The reasoning capability behind an
  agent is a parameter: given the agent and its view of the context it is unreachable
  (\<open>None\<close>) or gives a payload and the tool calls it made, of an arbitrary type \<open>'a\<close>. "If
  the reasoning capability is unreachable or exceeds its tool-call budget, the Agent
  returns a fatal error to its enclosing Step."
\<close>

definition respond ::
  "(agent \<Rightarrow> 'n SessionContext \<Rightarrow> (string \<times> 'a list) option) \<Rightarrow> agent \<Rightarrow> 'n SessionContext
     \<Rightarrow> agent_failure + string \<times> 'a list" where
  "respond capability ag view =
     (case capability ag view of
        None \<Rightarrow> Inl Unreachable
      | Some (p, calls) \<Rightarrow>
          (case tool_call_limit ag of
             None \<Rightarrow> Inr (p, calls)
           | Some n \<Rightarrow> if n < length calls then Inl BudgetExceeded else Inr (p, calls)))"

text \<open>
  Modelled from the spec: the \<^verbatim>\<open>StepResult\<close> of section 3, tagged with the name of its
  step; \<open>failure\<close> is \<open>None\<close> on success.
\<close>

record 'a StepResult =
  result_step :: string
  failure :: "agent_failure option"
  payload :: string
  tool_calls :: "'a list"

text \<open>Modelled from the spec: \<^verbatim>\<open>execute\<close> of a Step, section 4.2.\<close>

definition execute ::
  "(agent \<Rightarrow> 'n SessionContext \<Rightarrow> (string \<times> 'a list) option) \<Rightarrow> step \<Rightarrow> 'n SessionContext
     \<Rightarrow> 'a StepResult" where
  "execute capability s ctx =
     (case respond capability (step_agent s) ctx of
        Inl f \<Rightarrow> \<lparr>result_step = step_name s, failure = Some f, payload = [], tool_calls = []\<rparr>
      | Inr (p, calls) \<Rightarrow>
          \<lparr>result_step = step_name s, failure = None, payload = p, tool_calls = calls\<rparr>)"

subsection \<open>Parallel groups\<close>

text \<open>
  Modelled from the spec: the results a Parallel Group gathers, section 4.1 and the
  fourth property of section 8. The members are given in the order in which they
  complete; each runs on "a context snapshot that contains only the original input";
  once a member has failed, the members still pending leave no result.
\<close>

fun until_failure :: "'a StepResult list \<Rightarrow> 'a StepResult list" where
  "until_failure [] = []"
| "until_failure (r # rs) = (if failure r = None then r # until_failure rs else [r])"

text \<open>
  Modelled from the spec: \<^verbatim>\<open>execute\<close> of a Parallel Group, section 4.2, on the members in
  their order of completion.
\<close>

definition execute_group ::
  "(agent \<Rightarrow> 'n SessionContext \<Rightarrow> (string \<times> 'a list) option) \<Rightarrow> step list \<Rightarrow> 'n SessionContext
     \<Rightarrow> 'a StepResult list" where
  "execute_group capability finished ctx =
     until_failure (map (\<lambda>s. execute capability s (ctx\<lparr>outputs := []\<rparr>)) finished)"

text \<open>
  Modelled from the spec: the merge of a group's results, "merge order into
  SessionContext is the group's declared member order": for each declared member in
  turn, the result that carries its name is appended.
\<close>

definition merge :: "step list \<Rightarrow> 'a StepResult list \<Rightarrow> 'n SessionContext \<Rightarrow> 'n SessionContext" where
  "merge members results ctx =
     ctx\<lparr>outputs := outputs ctx @
       List.map_filter
         (\<lambda>s. map_option (\<lambda>r. (step_name s, payload r))
                (find (\<lambda>r. result_step r = step_name s) results))
         members\<rparr>"

subsection \<open>Stages and runs\<close>

text \<open>
  Modelled from the spec: one stage, section 4.1. \<open>schedule\<close> gives the order in which
  the members of a group complete on this run. The result is the StepResults gathered
  and either the name of the failed step or the context for the next stage.
\<close>

fun exec_stage ::
  "(agent \<Rightarrow> 'n SessionContext \<Rightarrow> (string \<times> 'a list) option) \<Rightarrow> (step list \<Rightarrow> step list)
     \<Rightarrow> 'n SessionContext \<Rightarrow> stage \<Rightarrow> 'a StepResult list \<times> (string + 'n SessionContext)" where
  "exec_stage capability schedule ctx (Step s) =
     (let r = execute capability s ctx in
        ([r],
         if failure r = None then Inr (ctx\<lparr>outputs := outputs ctx @ [(step_name s, payload r)]\<rparr>)
         else Inl (step_name s)))"
| "exec_stage capability schedule ctx (Parallel members nm) =
     (let rs = execute_group capability (schedule members) ctx in
        (rs,
         case find (\<lambda>r. failure r \<noteq> None) rs of
           Some r \<Rightarrow> Inl (result_step r)
         | None \<Rightarrow> Inr (merge members rs ctx)))"

text \<open>
  The steps of a stage by name, in the order in which the stage gathers their results:
  the members of a group in their order of completion, or the single step.
\<close>

fun stage_steps :: "(step list \<Rightarrow> step list) \<Rightarrow> stage \<Rightarrow> string list" where
  "stage_steps schedule (Parallel members nm) = map step_name (schedule members)"
| "stage_steps schedule (Step s) = [step_name s]"

text \<open>Modelled from the spec: the status of a \<^verbatim>\<open>RunRecord\<close>, sections 3 and 4.5.\<close>

datatype run_status = running | completed | failed

text \<open>
  Modelled from the spec: the \<^verbatim>\<open>RunRecord\<close> of section 3 without run id and timestamps.
  \<open>transitions\<close> lists the stages begun, in order, each with whether it completed
  successfully.
\<close>

record ('n, 'a) RunRecord =
  run_input :: "string \<rightharpoonup> 'n json"
  step_results :: "'a StepResult list"
  transitions :: "(string \<times> bool) list"
  final_output :: "string option"
  status :: run_status

text \<open>
  Modelled from the spec: what \<^verbatim>\<open>run\<close> returns, sections 4.1 and 7: the final output,
  a \<^verbatim>\<open>StageFailure\<close> naming the failed step, or a \<^verbatim>\<open>ValidationError\<close> naming the
  offending fields.
\<close>

datatype run_outcome = FinalOutput string | StageFailure string | ValidationError "string list"

text \<open>
  Modelled from the spec: "Executes stages strictly in declaration order; a stage only
  begins once all stages before it have completed successfully", and after a failed
  stage "no subsequent stage executes".
\<close>

fun run_stages ::
  "(agent \<Rightarrow> 'n SessionContext \<Rightarrow> (string \<times> 'a list) option) \<Rightarrow> (step list \<Rightarrow> step list)
     \<Rightarrow> stage list \<Rightarrow> 'n SessionContext \<Rightarrow> ('n, 'a) RunRecord
     \<Rightarrow> (string + 'n SessionContext) \<times> ('n, 'a) RunRecord" where
  "run_stages capability schedule [] ctx rec = (Inr ctx, rec)"
| "run_stages capability schedule (st # sts) ctx rec =
     (case exec_stage capability schedule ctx st of
        (rs, Inl nm) \<Rightarrow>
          (Inl nm,
           rec\<lparr>step_results := step_results rec @ rs,
               transitions := transitions rec @ [(stage_name st, False)]\<rparr>)
      | (rs, Inr ctx') \<Rightarrow>
          run_stages capability schedule sts ctx'
            (rec\<lparr>step_results := step_results rec @ rs,
                 transitions := transitions rec @ [(stage_name st, True)]\<rparr>))"

text \<open>
  Modelled from the spec: \<^verbatim>\<open>run\<close> of section 4.1. Validation comes first and on failure
  "performs no agent work"; otherwise the stages run on a fresh context seeded with the
  validated input, and the output written last is the final output.
\<close>

definition run ::
  "workflow \<Rightarrow> (agent \<Rightarrow> 'n SessionContext \<Rightarrow> (string \<times> 'a list) option) \<Rightarrow> (step list \<Rightarrow> step list)
     \<Rightarrow> (string \<rightharpoonup> 'n json) \<Rightarrow> run_outcome \<times> ('n, 'a) RunRecord" where
  "run flow capability schedule raw =
     (let fresh = \<lparr>run_input = raw, step_results = [], transitions = [],
                   final_output = None, status = running\<rparr>
      in case validate (input_schema flow) raw of
           Inl names \<Rightarrow> (ValidationError names, fresh\<lparr>status := failed\<rparr>)
         | Inr inp \<Rightarrow>
             (case run_stages capability schedule (steps flow)
                     \<lparr>original = inp, outputs = []\<rparr> fresh of
                (Inl nm, rec) \<Rightarrow> (StageFailure nm, rec\<lparr>status := failed\<rparr>)
              | (Inr ctx, rec) \<Rightarrow>
                  (let out = (if outputs ctx = [] then [] else snd (last (outputs ctx)))
                   in (FinalOutput out, rec\<lparr>final_output := Some out, status := completed\<rparr>))))"

subsection \<open>Tool invocation with fallback\<close>







section \<open>Sample inputs\<close>

text \<open>A reasoning capability that answers every agent after eleven tool calls.\<close>

definition busy :: "agent \<Rightarrow> int SessionContext \<Rightarrow> (string \<times> nat list) option" where
  "busy ag view = Some (''tips'', [1, 2, 3, 4, 5, 6, 7, 8, 9, 10, 11])"

text \<open>A reasoning capability that answers with the name of the agent and calls no tool.\<close>

definition echo :: "agent \<Rightarrow> int SessionContext \<Rightarrow> (string \<times> nat list) option" where
  "echo ag view = Some (agent_name ag, [])"

text \<open>A request with all twelve fields, and the same request without its budget.\<close>

definition lisbon :: "string \<rightharpoonup> int json" where
  "lisbon = map_of
     [(''destination'', JStr ''Lisbon''),
      (''travel_purpose'', JStr ''leisure''),
      (''travel_companions'', JStr ''couple''),
      (''travel_dates'', JStr ''2026-05-01 to 2026-05-06''),
      (''departure_location'', JStr ''Berlin''),
      (''date_flexibility'', JStr ''fixed''),
      (''accommodation_type'', JStr ''hotel''),
      (''budget'', JStr ''$1500 USD''),
      (''interests_activities'', JArr [JStr ''food tours'', JStr ''museums'']),
      (''travel_style'', JStr ''mid-range''),
      (''duration'', JStr ''5 days''),
      (''budget_flexibility'', JStr ''moderate'')]"

definition no_budget :: "string \<rightharpoonup> int json" where
  "no_budget = lisbon(''budget'' := None)"


section \<open>Properties of the conversion tool\<close>

subsection \<open>Auxiliary facts\<close>

lemma upper_char_idem: "upper_char (upper_char c) = upper_char c"
proof (cases "97 \<le> (of_char c :: nat) \<and> (of_char c :: nat) \<le> 122")
  case True
  then have "(of_char c :: nat) - 32 < 256"
    by arith
  then have "(of_char (char_of ((of_char c :: nat) - 32)) :: nat) = of_char c - 32"
    by simp
  with True show ?thesis
    by (auto simp add: upper_char_def Let_def)
next
  case False
  then have "upper_char c = c"
    by (auto simp add: upper_char_def Let_def)
  then show ?thesis by simp
qed

lemma upper_idem: "upper (upper s) = upper s"
  by (simp add: upper_def upper_char_idem)

lemma build_request_upper:
  "build_request w k (upper f) (upper t) a = build_request w k f t a"
  by (simp add: build_request_def upper_idem)

text \<open>On a dict the two tests and the two subscripts never raise.\<close>

lemma read_payload_object:
  "read_payload w (JObj kvs) =
     Inr (if ''result'' \<in> fst ` set kvs \<and> ''to'' \<in> fst ` set kvs
          then ''Converted amount: '' @ py_str w (the (map_of kvs ''result'')) @ '' ''
                 @ py_str w (the (map_of kvs ''to''))
          else payload_failure w (JObj kvs))"
proof (cases "''result'' \<in> fst ` set kvs")
  case False
  then show ?thesis by (simp add: read_payload_def)
next
  case r: True
  show ?thesis
  proof (cases "''to'' \<in> fst ` set kvs")
    case False
    with r show ?thesis by (simp add: read_payload_def)
  next
    case t: True
    from r obtain a where a: "map_of kvs ''result'' = Some a"
      by (metis map_of_eq_None_iff not_Some_eq)
    from t obtain b where b: "map_of kvs ''to'' = Some b"
      by (metis map_of_eq_None_iff not_Some_eq)
    from r t a b show ?thesis
      by (simp add: read_payload_def success_message_def)
  qed
qed

text \<open>
  With the credential set and a dict as payload, the call returns, and the success
  message comes exactly when both keys are there.
\<close>

lemma convert_currency_object:
  assumes "environ w ''RATE_CONVERTER_API_KEY'' = Some k" and "k \<noteq> []"
    and "urlopen w (build_request w k f t a) = Parsed (JObj kvs)"
  shows "snd (convert_currency w f t a) =
     Inr (if ''result'' \<in> fst ` set kvs \<and> ''to'' \<in> fst ` set kvs
          then ''Converted amount: '' @ py_str w (the (map_of kvs ''result'')) @ '' ''
                 @ py_str w (the (map_of kvs ''to''))
          else ''Currency conversion failed: '' @ py_str w (JObj kvs))"
  using assms
  by (simp add: convert_currency_def Let_def read_payload_object payload_failure_def)

text \<open>The three \<^verbatim>\<open>except\<close> clauses return.\<close>

lemma convert_currency_request_failed:
  assumes "environ w ''RATE_CONVERTER_API_KEY'' = Some k" and "k \<noteq> []"
    and "\<forall>p. urlopen w (build_request w k f t a) \<noteq> Parsed p"
  shows "\<exists>s. snd (convert_currency w f t a) = Inr s \<and> prefix ''Currency conversion failed'' s"
  using assms
  by (cases "urlopen w (build_request w k f t a)") (simp_all add: convert_currency_def Let_def)

text \<open>Whatever string comes back begins in exactly one of the two ways.\<close>

lemma read_payload_prefix:
  assumes "read_payload w p = Inr s"
  shows "prefix ''Currency conversion failed'' s \<noteq> prefix ''Converted amount:'' s"
  using assms
  by (auto simp: read_payload_def success_message_def payload_failure_def
      split: sum.splits bool.splits)

lemma convert_currency_prefix:
  assumes "snd (convert_currency w f t a) = Inr s"
  shows "prefix ''Currency conversion failed'' s \<noteq> prefix ''Converted amount:'' s"
  using assms
  by (auto simp: convert_currency_def Let_def dest: read_payload_prefix
      split: option.splits if_splits fetch.splits)

subsection \<open>Missing credential\<close>

text \<open>
  C3. With \<^verbatim>\<open>RATE_CONVERTER_API_KEY\<close> unset, \<^verbatim>\<open>convert_currency\<close> returns the failure
  message that names the missing credential, as a returned string and not as an
  exception, and the call makes no network request: its list of requests is empty.
\<close>

theorem missing_credential_no_request:
  assumes "environ w ''RATE_CONVERTER_API_KEY'' = None"
  shows "convert_currency w from_currency to_currency amount =
     ([], Inr ''Currency conversion failed: RATE_CONVERTER_API_KEY is not set.'')"
  using assms by (simp add: convert_currency_def)

theorem missing_credential_no_request_witness:
  "environ (sample_world Map.empty (Parsed JNull)) ''RATE_CONVERTER_API_KEY'' = None
   \<and> convert_currency (sample_world Map.empty (Parsed JNull)) ''usd'' ''eur'' 100 =
       ([], Inr ''Currency conversion failed: RATE_CONVERTER_API_KEY is not set.'')"
proof -
  have h: "environ (sample_world Map.empty (Parsed JNull)) ''RATE_CONVERTER_API_KEY'' = None"
    by (simp add: sample_world_def)
  show ?thesis
    using h missing_credential_no_request [OF h, of "''usd''" "''eur''" 100] by simp
qed

subsection \<open>Case of the currency codes\<close>

text \<open>
  C9. \<^verbatim>\<open>convert_currency\<close> does not depend on the case of its currency codes: for all
  codes and every amount, the request built from the codes is the request built from
  the upper-cased codes, and so is the whole outcome of the call in the same world.
\<close>

theorem convert_currency_case_insensitive:
  "build_request w api_key from_currency to_currency amount =
     build_request w api_key (upper from_currency) (upper to_currency) amount
   \<and> convert_currency w from_currency to_currency amount =
       convert_currency w (upper from_currency) (upper to_currency) amount"
  unfolding convert_currency_def build_request_upper by simp

theorem convert_currency_case_insensitive_witness:
  "upper ''usd'' = ''USD'' \<and> upper ''Eur'' = ''EUR''
   \<and> convert_currency (sample_world with_key (HTTPError 503)) ''usd'' ''Eur'' 100 =
       convert_currency (sample_world with_key (HTTPError 503)) ''USD'' ''EUR'' 100"
proof -
  have u: "upper ''usd'' = ''USD''" "upper ''Eur'' = ''EUR''"
    by code_simp+
  from convert_currency_case_insensitive
    [of "sample_world with_key (HTTPError 503)" "[]" "''usd''" "''Eur''" 100]
  show ?thesis by (simp add: u)
qed

subsection \<open>Payloads that are not dicts\<close>

text \<open>
  C2. The claim: \<^verbatim>\<open>convert_currency\<close> returns a string on every input and never lets an
  exception out. The code at the response body \<^verbatim>\<open>null\<close>: the request succeeds, the body
  parses to \<^verbatim>\<open>None\<close>, and the test \<^verbatim>\<open>"result" in payload\<close> on line 64, after the
  \<^verbatim>\<open>try\<close>, raises \<^verbatim>\<open>TypeError\<close>, which leaves the function.
\<close>

theorem convert_currency_null_payload_raises:
  "convert_currency (sample_world with_key (Parsed JNull)) ''USD'' ''EUR'' 100 =
     ([\<lparr>req_url = ''https://api.unirateapi.com/api/convert?api_key=secret&from=USD&to=EUR&amount=100'',
        req_timeout = 20\<rparr>],
      Inl TypeError)"
  by code_simp

text \<open>
  C1. The claim: whenever the request succeeds and the body parses as JSON, the call
  returns the success message or, a key being absent, a failure message with the
  payload in it. The code at the response body \<^verbatim>\<open>42\<close>: the payload has no key at all,
  and no message comes back; the call raises \<^verbatim>\<open>TypeError\<close>.
\<close>

theorem convert_currency_number_payload_raises:
  "snd (convert_currency (sample_world with_key (Parsed (JNum 42))) ''USD'' ''EUR'' 100)
     = Inl TypeError
   \<and> snd (convert_currency (sample_world with_key (Parsed (JNum 42))) ''USD'' ''EUR'' 100)
     \<noteq> Inr (''Currency conversion failed: ''
              @ py_str (sample_world with_key (Parsed (JNum 42))) (JNum 42))"
  by code_simp

text \<open>
  C10. The claim: every path gives back a string that begins
  \<^verbatim>\<open>Currency conversion failed\<close> or \<^verbatim>\<open>Converted amount:\<close>. The code at the response body
  \<^verbatim>\<open>["result", "to"]\<close>: both membership tests on line 64 hold, the success path on
  line 65 is taken, and the subscript \<^verbatim>\<open>payload['result']\<close> of a list raises
  \<^verbatim>\<open>TypeError\<close>; no string is returned.
\<close>

theorem convert_currency_list_payload_raises:
  "py_contains ''result'' (JArr [JStr ''result'', JStr ''to'' :: int json]) = Inr True
   \<and> py_contains ''to'' (JArr [JStr ''result'', JStr ''to'' :: int json]) = Inr True
   \<and> snd (convert_currency
        (sample_world with_key (Parsed (JArr [JStr ''result'', JStr ''to''])))
        ''USD'' ''EUR'' 100) = Inl TypeError"
  by code_simp

section \<open>Properties of the declared pipeline\<close>

subsection \<open>Tool-call limits\<close>

lemmas agent_defs =
  weather_agent_def destination_agent_def accommodation_agent_def transport_agent_def
  activities_agent_def local_insider_def budget_agent_def booking_agent_def

lemma respond_over_budget:
  assumes "tool_call_limit ag = Some n" and "capability ag view = Some (p, calls)"
    and "n < length calls"
  shows "respond capability ag view = Inl BudgetExceeded"
  using assms by (simp add: respond_def)

lemma step_over_budget:
  assumes "tool_call_limit (step_agent s) = Some n"
    and "capability (step_agent s) ctx = Some (p, calls)" and "n < length calls"
  shows "exec_stage capability schedule ctx (Step s) =
     ([\<lparr>result_step = step_name s, failure = Some BudgetExceeded, payload = [], tool_calls = []\<rparr>],
      Inl (step_name s))"
  using assms by (simp add: execute_def respond_def Let_def)

text \<open>
  C8. An agent may declare a maximum number of tool calls per invocation
  (\<open>tool_call_limit\<close> is optional). Of the agents of this program exactly one declares it,
  Local Insider, with the value 10. Whenever its reasoning makes more than 10 tool
  calls, the agent answers its step with a fatal error, and the step's stage fails.
\<close>

theorem local_insider_alone_limits_tool_calls:
  "filter (\<lambda>ag. tool_call_limit ag \<noteq> None) agents = [local_insider]
   \<and> agent_name local_insider = ''Local Insider''
   \<and> tool_call_limit local_insider = Some 10
   \<and> (\<forall>(capability :: agent \<Rightarrow> 'n SessionContext \<Rightarrow> (string \<times> 'a list) option) view p calls.
         capability local_insider view = Some (p, calls) \<and> 10 < length calls
         \<longrightarrow> respond capability local_insider view = Inl BudgetExceeded
             \<and> snd (exec_stage capability schedule view
                      (Step \<lparr>step_name = ''Local Insights'', step_agent = local_insider\<rparr>))
                 = Inl ''Local Insights'')"
proof (intro conjI allI impI)
  show lim: "tool_call_limit local_insider = Some 10"
    by (simp add: local_insider_def)
  have others: "tool_call_limit weather_agent = None" "tool_call_limit destination_agent = None"
    "tool_call_limit accommodation_agent = None" "tool_call_limit transport_agent = None"
    "tool_call_limit activities_agent = None" "tool_call_limit budget_agent = None"
    "tool_call_limit booking_agent = None"
    by (simp_all add: agent_defs)
  show "filter (\<lambda>ag. tool_call_limit ag \<noteq> None) agents = [local_insider]"
    by (simp add: agents_def lim others)
  show "agent_name local_insider = ''Local Insider''"
    by (simp add: local_insider_def)
  fix capability :: "agent \<Rightarrow> 'n SessionContext \<Rightarrow> (string \<times> 'a list) option"
  fix view p calls
  assume "capability local_insider view = Some (p, calls) \<and> 10 < length calls"
  then have c: "capability local_insider view = Some (p, calls)" and l: "10 < length calls"
    by simp_all
  show "respond capability local_insider view = Inl BudgetExceeded"
    using lim c l by (rule respond_over_budget)
  show "snd (exec_stage capability schedule view
      (Step \<lparr>step_name = ''Local Insights'', step_agent = local_insider\<rparr>)) = Inl ''Local Insights''"
    using step_over_budget [of "\<lparr>step_name = ''Local Insights'', step_agent = local_insider\<rparr>"
        10 capability view p calls schedule] lim c l
    by simp
qed

theorem local_insider_alone_limits_tool_calls_witness:
  "busy local_insider \<lparr>original = Map.empty, outputs = []\<rparr>
      = Some (''tips'', [1, 2, 3, 4, 5, 6, 7, 8, 9, 10, 11])
   \<and> 10 < length [1, 2, 3, 4, 5, 6, 7, 8, 9, 10, 11 :: nat]
   \<and> respond busy local_insider \<lparr>original = Map.empty, outputs = []\<rparr> = Inl BudgetExceeded"
  using local_insider_alone_limits_tool_calls [where ?'n = int and ?'a = nat]
  by (simp add: busy_def)

subsection \<open>Order of the stages\<close>

lemma run_stages_failed:
  assumes "exec_stage capability schedule ctx st = (rs, Inl nm)"
  shows "run_stages capability schedule (st # sts) ctx rec =
     (Inl nm, rec\<lparr>step_results := step_results rec @ rs,
                  transitions := transitions rec @ [(stage_name st, False)]\<rparr>)"
  using assms by simp

lemma run_stages_passed:
  assumes "exec_stage capability schedule ctx st = (rs, Inr ctx')"
  shows "run_stages capability schedule (st # sts) ctx rec =
     run_stages capability schedule sts ctx'
       (rec\<lparr>step_results := step_results rec @ rs,
            transitions := transitions rec @ [(stage_name st, True)]\<rparr>)"
  using assms by simp


lemma run_stages_log:
  "\<exists>new. transitions (snd (run_stages capability schedule sts ctx rec)) = transitions rec @ new
      \<and> map fst new = take (length new) (map stage_name sts)
      \<and> list_all snd (butlast new)
      \<and> ((\<exists>c. fst (run_stages capability schedule sts ctx rec) = Inr c)
           \<longrightarrow> new = map (\<lambda>st. (stage_name st, True)) sts)"
proof (induction sts arbitrary: ctx rec)
  case Nil
  show ?case by (rule exI [of _ "[]"]) simp
next
  case (Cons st sts)
  obtain rs res where e: "exec_stage capability schedule ctx st = (rs, res)"
    by (cases "exec_stage capability schedule ctx st")
  show ?case
  proof (cases res)
    case (Inl nm)
    with e have r: "run_stages capability schedule (st # sts) ctx rec =
        (Inl nm, rec\<lparr>step_results := step_results rec @ rs,
                     transitions := transitions rec @ [(stage_name st, False)]\<rparr>)"
      by (simp only: run_stages_failed)
    show ?thesis
      unfolding r by (rule exI [of _ "[(stage_name st, False)]"]) simp
  next
    case (Inr ctx')
    let ?rec' = "rec\<lparr>step_results := step_results rec @ rs,
                     transitions := transitions rec @ [(stage_name st, True)]\<rparr>"
    from Cons.IH [of ctx' ?rec'] obtain new where
      n1: "transitions (snd (run_stages capability schedule sts ctx' ?rec'))
            = transitions ?rec' @ new"
      and n2: "map fst new = take (length new) (map stage_name sts)"
      and n3: "list_all snd (butlast new)"
      and n4: "(\<exists>c. fst (run_stages capability schedule sts ctx' ?rec') = Inr c)
           \<longrightarrow> new = map (\<lambda>st. (stage_name st, True)) sts"
      by (elim exE conjE)
    from e Inr have r: "run_stages capability schedule (st # sts) ctx rec
               = run_stages capability schedule sts ctx' ?rec'"
      by (simp only: run_stages_passed)
    have t: "transitions ?rec' = transitions rec @ [(stage_name st, True)]"
      by simp
    show ?thesis
      unfolding r
    proof (rule exI [of _ "(stage_name st, True) # new"], intro conjI)
      show "transitions (snd (run_stages capability schedule sts ctx' ?rec'))
              = transitions rec @ (stage_name st, True) # new"
        using n1 t by simp
      show "map fst ((stage_name st, True) # new)
              = take (length ((stage_name st, True) # new)) (map stage_name (st # sts))"
        using n2 by simp
      show "list_all snd (butlast ((stage_name st, True) # new))"
        using n3 by simp
      show "(\<exists>c. fst (run_stages capability schedule sts ctx' ?rec') = Inr c)
           \<longrightarrow> (stage_name st, True) # new = map (\<lambda>st. (stage_name st, True)) (st # sts)"
        using n4 by simp
    qed
  qed
qed


lemma run_rejected:
  assumes "validate (input_schema flow) raw = Inl names"
  shows "run flow capability schedule raw =
     (ValidationError names,
      \<lparr>run_input = raw, step_results = [], transitions = [],
        final_output = None, status = failed\<rparr>)"
  using assms by (simp add: run_def)

lemma run_accepted:
  assumes "validate (input_schema flow) raw = Inr inp"
  shows "transitions (snd (run flow capability schedule raw)) =
       transitions (snd (run_stages capability schedule (steps flow)
          \<lparr>original = inp, outputs = []\<rparr>
          \<lparr>run_input = raw, step_results = [], transitions = [],
            final_output = None, status = running\<rparr>))"
    and "(\<exists>out. fst (run flow capability schedule raw) = FinalOutput out) =
       (\<exists>c. fst (run_stages capability schedule (steps flow)
          \<lparr>original = inp, outputs = []\<rparr>
          \<lparr>run_input = raw, step_results = [], transitions = [],
            final_output = None, status = running\<rparr>) = Inr c)"
  using assms by (simp_all add: run_def Let_def split: prod.split sum.split)

lemma run_log:
  "map fst (transitions (snd (run flow capability schedule raw)))
      = take (length (transitions (snd (run flow capability schedule raw))))
          (map stage_name (steps flow))
   \<and> list_all snd (butlast (transitions (snd (run flow capability schedule raw))))
   \<and> ((\<exists>out. fst (run flow capability schedule raw) = FinalOutput out)
        \<longrightarrow> transitions (snd (run flow capability schedule raw))
              = map (\<lambda>st. (stage_name st, True)) (steps flow))"
proof (cases "validate (input_schema flow) raw")
  case (Inl names)
  show ?thesis unfolding run_rejected [OF Inl] by simp
next
  case (Inr inp)
  let ?fresh = "\<lparr>run_input = raw, step_results = [], transitions = [],
                   final_output = None, status = running\<rparr> :: ('a, 'b) RunRecord"
  let ?ctx = "\<lparr>original = inp, outputs = []\<rparr>"
  from run_stages_log [of capability schedule "steps flow" ?ctx ?fresh]
  obtain new where
    n1: "transitions (snd (run_stages capability schedule (steps flow) ?ctx ?fresh))
            = transitions ?fresh @ new"
      and n2: "map fst new = take (length new) (map stage_name (steps flow))"
      and n3: "list_all snd (butlast new)"
      and n4: "(\<exists>c. fst (run_stages capability schedule (steps flow) ?ctx ?fresh) = Inr c)
           \<longrightarrow> new = map (\<lambda>st. (stage_name st, True)) (steps flow)"
    by (elim exE conjE)
  have t: "transitions (snd (run flow capability schedule raw)) = new"
    using run_accepted(1) [OF Inr, of capability schedule] n1 by simp
  show ?thesis
    unfolding t run_accepted(2) [OF Inr] using n2 n3 n4 by simp
qed

text \<open>What one stage leaves behind, by its outcome.\<close>

lemma result_step_execute: "result_step (execute capability s ctx) = step_name s"
  by (simp add: execute_def split: sum.split prod.split)

lemma until_failure_prefix: "prefix (until_failure xs) xs"
  by (induction xs) simp_all

lemma until_failure_butlast: "list_all (\<lambda>r. failure r = None) (butlast (until_failure xs))"
  by (induction xs) simp_all

lemma until_failure_none:
  "find (\<lambda>r. failure r \<noteq> None) (until_failure xs) = None \<Longrightarrow>
     until_failure xs = xs \<and> list_all (\<lambda>r. failure r = None) xs"
  by (induction xs) (simp_all split: if_splits)

lemma until_failure_some:
  "find (\<lambda>r. failure r \<noteq> None) (until_failure xs) = Some r \<Longrightarrow>
     until_failure xs \<noteq> [] \<and> r = last (until_failure xs) \<and> failure r \<noteq> None"
proof (induction xs)
  case Nil
  then show ?case by simp
next
  case (Cons x xs)
  show ?case
  proof (cases "failure x = None")
    case True
    with Cons.prems have "find (\<lambda>r. failure r \<noteq> None) (until_failure xs) = Some r"
      by simp
    from Cons.IH [OF this] True show ?thesis by auto
  next
    case False
    with Cons.prems show ?thesis by auto
  qed
qed

lemma exec_stage_results:
  assumes "exec_stage capability schedule ctx st = (rs, res)"
  shows "\<forall>r \<in> set rs. \<exists>s c. r = execute capability s c"
    and "list_all (\<lambda>r. failure r = None) (butlast rs)"
    and "prefix (map result_step rs) (stage_steps schedule st)"
proof -
  have "(\<forall>r \<in> set rs. \<exists>s c. r = execute capability s c)
      \<and> list_all (\<lambda>r. failure r = None) (butlast rs)
      \<and> prefix (map result_step rs) (stage_steps schedule st)"
  proof (cases st)
    case (Step s)
    with assms have "rs = [execute capability s ctx]"
      by (simp add: Let_def)
    with Step show ?thesis
      by (auto simp: result_step_execute)
  next
    case (Parallel members nm)
    let ?all = "map (\<lambda>s. execute capability s (ctx\<lparr>outputs := []\<rparr>)) (schedule members)"
    from assms Parallel have rs: "rs = until_failure ?all"
      by (simp add: Let_def execute_group_def)
    have p: "prefix rs ?all"
      unfolding rs by (rule until_failure_prefix)
    then have "set rs \<subseteq> set ?all"
      by (rule set_mono_prefix)
    then have a: "\<forall>r \<in> set rs. \<exists>s c. r = execute capability s c"
      by fastforce
    have b: "list_all (\<lambda>r. failure r = None) (butlast rs)"
      unfolding rs by (rule until_failure_butlast)
    from p have "prefix (map result_step rs) (map result_step ?all)"
      by (rule map_mono_prefix)
    then have c: "prefix (map result_step rs) (stage_steps schedule st)"
      by (simp add: Parallel comp_def result_step_execute)
    from a b c show ?thesis by blast
  qed
  then show "\<forall>r \<in> set rs. \<exists>s c. r = execute capability s c"
    and "list_all (\<lambda>r. failure r = None) (butlast rs)"
    and "prefix (map result_step rs) (stage_steps schedule st)"
    by blast+
qed

lemma exec_stage_passed:
  assumes "exec_stage capability schedule ctx st = (rs, Inr ctx')"
  shows "list_all (\<lambda>r. failure r = None) rs" and "map result_step rs = stage_steps schedule st"
proof -
  have "list_all (\<lambda>r. failure r = None) rs \<and> map result_step rs = stage_steps schedule st"
  proof (cases st)
    case (Step s)
    with assms show ?thesis
      by (auto simp: Let_def result_step_execute split: if_splits)
  next
    case (Parallel members nm)
    let ?all = "map (\<lambda>s. execute capability s (ctx\<lparr>outputs := []\<rparr>)) (schedule members)"
    from assms Parallel have rs: "rs = until_failure ?all"
      and f: "find (\<lambda>r. failure r \<noteq> None) (until_failure ?all) = None"
      by (auto simp: Let_def execute_group_def split: option.splits)
    from until_failure_none [OF f] rs have "rs = ?all" and "list_all (\<lambda>r. failure r = None) rs"
      by simp_all
    then show ?thesis
      by (simp add: Parallel comp_def result_step_execute)
  qed
  then show "list_all (\<lambda>r. failure r = None) rs"
    and "map result_step rs = stage_steps schedule st"
    by simp_all
qed

lemma exec_stage_failed:
  assumes "exec_stage capability schedule ctx st = (rs, Inl nm)"
  shows "rs \<noteq> []" and "failure (last rs) \<noteq> None" and "nm = result_step (last rs)"
proof -
  have "rs \<noteq> [] \<and> failure (last rs) \<noteq> None \<and> nm = result_step (last rs)"
  proof (cases st)
    case (Step s)
    with assms show ?thesis
      by (auto simp: Let_def result_step_execute split: if_splits)
  next
    case (Parallel members nm')
    let ?all = "map (\<lambda>s. execute capability s (ctx\<lparr>outputs := []\<rparr>)) (schedule members)"
    from assms Parallel obtain r where rs: "rs = until_failure ?all"
      and f: "find (\<lambda>r. failure r \<noteq> None) (until_failure ?all) = Some r"
      and n: "nm = result_step r"
      by (auto simp: Let_def execute_group_def split: option.splits)
    from until_failure_some [OF f] rs n show ?thesis
      by auto
  qed
  then show "rs \<noteq> []" and "failure (last rs) \<noteq> None" and "nm = result_step (last rs)"
    by simp_all
qed

text \<open>
  A sequence of stages that completes has run every step of every stage, in stage
  order, and every step succeeded.
\<close>

lemma run_stages_completed:
  "run_stages capability schedule sts ctx rec = (Inr ctx', rec') \<Longrightarrow>
     transitions rec' = transitions rec @ map (\<lambda>st. (stage_name st, True)) sts
     \<and> (\<exists>rs. step_results rec' = step_results rec @ rs
           \<and> map result_step rs = concat (map (stage_steps schedule) sts)
           \<and> list_all (\<lambda>r. failure r = None) rs
           \<and> (\<forall>r \<in> set rs. \<exists>s c. r = execute capability s c))"
proof (induction sts arbitrary: ctx rec)
  case Nil
  then show ?case by simp
next
  case (Cons st sts)
  obtain rs0 res where e: "exec_stage capability schedule ctx st = (rs0, res)"
    by (cases "exec_stage capability schedule ctx st")
  show ?case
  proof (cases res)
    case (Inl nm)
    with e Cons.prems show ?thesis by simp
  next
    case (Inr c1)
    let ?rec1 = "rec\<lparr>step_results := step_results rec @ rs0,
                     transitions := transitions rec @ [(stage_name st, True)]\<rparr>"
    from e Inr Cons.prems
    have r: "run_stages capability schedule sts c1 ?rec1 = (Inr ctx', rec')"
      by simp
    from Cons.IH [OF r] obtain rs where
      t: "transitions rec' = transitions ?rec1 @ map (\<lambda>st. (stage_name st, True)) sts"
      and s: "step_results rec' = step_results ?rec1 @ rs"
      and n: "map result_step rs = concat (map (stage_steps schedule) sts)"
      and o: "list_all (\<lambda>r. failure r = None) rs"
      and x: "\<forall>r \<in> set rs. \<exists>s c. r = execute capability s c"
      by (elim exE conjE)
    from e Inr have e': "exec_stage capability schedule ctx st = (rs0, Inr c1)"
      by simp
    note p = exec_stage_passed [OF e'] exec_stage_results(1) [OF e']
    have "transitions rec' = transitions rec @ map (\<lambda>st. (stage_name st, True)) (st # sts)"
      using t by simp
    moreover have "step_results rec' = step_results rec @ (rs0 @ rs)"
      using s by simp
    moreover have "map result_step (rs0 @ rs) = concat (map (stage_steps schedule) (st # sts))"
      using n p(2) by simp
    moreover have "list_all (\<lambda>r. failure r = None) (rs0 @ rs)"
      using o p(1) by simp
    moreover have "\<forall>r \<in> set (rs0 @ rs). \<exists>s c. r = execute capability s c"
      using x p(3) by auto
    ultimately show ?thesis by blast
  qed
qed

text \<open>
  A sequence of stages that stops has completed the stages before the failed one, has
  run part of the failed stage, and the step run last is the one that failed.
\<close>

lemma run_stages_stopped:
  "run_stages capability schedule sts ctx rec = (Inl nm, rec') \<Longrightarrow>
     \<exists>k rs part. k < length sts
       \<and> transitions rec' = transitions rec
            @ map (\<lambda>st. (stage_name st, True)) (take k sts) @ [(stage_name (sts ! k), False)]
       \<and> step_results rec' = step_results rec @ rs
       \<and> part \<noteq> [] \<and> prefix part (stage_steps schedule (sts ! k))
       \<and> map result_step rs = concat (map (stage_steps schedule) (take k sts)) @ part
       \<and> list_all (\<lambda>r. failure r = None) (butlast rs)
       \<and> failure (last rs) \<noteq> None \<and> nm = result_step (last rs)
       \<and> (\<forall>r \<in> set rs. \<exists>s c. r = execute capability s c)"
proof (induction sts arbitrary: ctx rec)
  case Nil
  then show ?case by simp
next
  case (Cons st sts)
  obtain rs0 res where e: "exec_stage capability schedule ctx st = (rs0, res)"
    by (cases "exec_stage capability schedule ctx st")
  show ?case
  proof (cases res)
    case (Inl nm0)
    with e have e': "exec_stage capability schedule ctx st = (rs0, Inl nm0)"
      by simp
    from e' Cons.prems have nm: "nm0 = nm"
      and r: "rec' = rec\<lparr>step_results := step_results rec @ rs0,
                    transitions := transitions rec @ [(stage_name st, False)]\<rparr>"
      by simp_all
    note f = exec_stage_failed [OF e'] exec_stage_results [OF e']
    show ?thesis
    proof (intro exI [of _ 0] exI [of _ rs0] exI [of _ "map result_step rs0"] conjI)
      show "0 < length (st # sts)" by simp
      show "transitions rec' = transitions rec
            @ map (\<lambda>st. (stage_name st, True)) (take 0 (st # sts))
            @ [(stage_name ((st # sts) ! 0), False)]"
        using r by simp
      show "step_results rec' = step_results rec @ rs0"
        using r by simp
      show "map result_step rs0 \<noteq> []"
        using f(1) by simp
      show "prefix (map result_step rs0) (stage_steps schedule ((st # sts) ! 0))"
        using f(6) by simp
      show "map result_step rs0
          = concat (map (stage_steps schedule) (take 0 (st # sts))) @ map result_step rs0"
        by simp
      show "list_all (\<lambda>r. failure r = None) (butlast rs0)"
        by (rule f(5))
      show "failure (last rs0) \<noteq> None"
        by (rule f(2))
      show "nm = result_step (last rs0)"
        using f(3) nm by simp
      show "\<forall>r \<in> set rs0. \<exists>s c. r = execute capability s c"
        by (rule f(4))
    qed
  next
    case (Inr c1)
    let ?rec1 = "rec\<lparr>step_results := step_results rec @ rs0,
                     transitions := transitions rec @ [(stage_name st, True)]\<rparr>"
    from e Inr have e': "exec_stage capability schedule ctx st = (rs0, Inr c1)"
      by simp
    from e' Cons.prems
    have r: "run_stages capability schedule sts c1 ?rec1 = (Inl nm, rec')"
      by simp
    from Cons.IH [OF r] obtain k rs part where
      k: "k < length sts"
      and t: "transitions rec' = transitions ?rec1
            @ map (\<lambda>st. (stage_name st, True)) (take k sts) @ [(stage_name (sts ! k), False)]"
      and s: "step_results rec' = step_results ?rec1 @ rs"
      and pn: "part \<noteq> []"
      and pp: "prefix part (stage_steps schedule (sts ! k))"
      and n: "map result_step rs = concat (map (stage_steps schedule) (take k sts)) @ part"
      and o: "list_all (\<lambda>r. failure r = None) (butlast rs)"
      and l: "failure (last rs) \<noteq> None"
      and m: "nm = result_step (last rs)"
      and x: "\<forall>r \<in> set rs. \<exists>s c. r = execute capability s c"
      by (elim exE conjE)
    note p = exec_stage_passed [OF e'] exec_stage_results(1) [OF e']
    from n pn have ne: "rs \<noteq> []"
      by auto
    show ?thesis
    proof (intro exI [of _ "Suc k"] exI [of _ "rs0 @ rs"] exI [of _ part] conjI)
      show "Suc k < length (st # sts)"
        using k by simp
      show "transitions rec' = transitions rec
            @ map (\<lambda>st. (stage_name st, True)) (take (Suc k) (st # sts))
            @ [(stage_name ((st # sts) ! Suc k), False)]"
        using t by simp
      show "step_results rec' = step_results rec @ rs0 @ rs"
        using s by simp
      show "part \<noteq> []"
        by (rule pn)
      show "prefix part (stage_steps schedule ((st # sts) ! Suc k))"
        using pp by simp
      show "map result_step (rs0 @ rs)
          = concat (map (stage_steps schedule) (take (Suc k) (st # sts))) @ part"
        using n p(2) by simp
      show "list_all (\<lambda>r. failure r = None) (butlast (rs0 @ rs))"
        using o p(1) ne by (simp add: butlast_append)
      show "failure (last (rs0 @ rs)) \<noteq> None"
        using l ne by simp
      show "nm = result_step (last (rs0 @ rs))"
        using m ne by simp
      show "\<forall>r \<in> set (rs0 @ rs). \<exists>s c. r = execute capability s c"
        using x p(3) by auto
    qed
  qed
qed

text \<open>The same for a whole run, by its outcome.\<close>

lemma run_invalid:
  assumes "fst (run flow capability schedule raw) = ValidationError names"
  shows "transitions (snd (run flow capability schedule raw)) = []"
    and "step_results (snd (run flow capability schedule raw)) = []"
  using assms
  by (auto simp: run_def Let_def split: sum.splits prod.splits)

lemma run_final:
  assumes "fst (run flow capability schedule raw) = FinalOutput out"
  shows "transitions (snd (run flow capability schedule raw))
           = map (\<lambda>st. (stage_name st, True)) (steps flow)
     \<and> map result_step (step_results (snd (run flow capability schedule raw)))
           = concat (map (stage_steps schedule) (steps flow))
     \<and> list_all (\<lambda>r. failure r = None) (step_results (snd (run flow capability schedule raw)))
     \<and> (\<forall>r \<in> set (step_results (snd (run flow capability schedule raw))).
           \<exists>s c. r = execute capability s c)"
proof -
  let ?fresh = "\<lparr>run_input = raw, step_results = [], transitions = [],
                   final_output = None, status = running\<rparr> :: ('a, 'b) RunRecord"
  from assms obtain inp where v: "validate (input_schema flow) raw = Inr inp"
    by (cases "validate (input_schema flow) raw") (simp_all add: run_def)
  let ?ctx = "\<lparr>original = inp, outputs = []\<rparr>"
  obtain res rec where rs: "run_stages capability schedule (steps flow) ?ctx ?fresh = (res, rec)"
    by (cases "run_stages capability schedule (steps flow) ?ctx ?fresh")
  from assms v rs obtain ctx' where c: "res = Inr ctx'"
    by (cases res) (simp_all add: run_def)
  from v rs c have t: "transitions (snd (run flow capability schedule raw)) = transitions rec"
    and s: "step_results (snd (run flow capability schedule raw)) = step_results rec"
    by (simp_all add: run_def Let_def)
  from run_stages_completed [OF rs [unfolded c]] show ?thesis
    unfolding t s by simp
qed

lemma run_stopped:
  assumes "fst (run flow capability schedule raw) = StageFailure nm"
  shows "\<exists>k part. k < length (steps flow)
     \<and> transitions (snd (run flow capability schedule raw))
         = map (\<lambda>st. (stage_name st, True)) (take k (steps flow))
           @ [(stage_name (steps flow ! k), False)]
     \<and> part \<noteq> [] \<and> prefix part (stage_steps schedule (steps flow ! k))
     \<and> map result_step (step_results (snd (run flow capability schedule raw)))
         = concat (map (stage_steps schedule) (take k (steps flow))) @ part
     \<and> list_all (\<lambda>r. failure r = None)
         (butlast (step_results (snd (run flow capability schedule raw))))
     \<and> failure (last (step_results (snd (run flow capability schedule raw)))) \<noteq> None
     \<and> nm = result_step (last (step_results (snd (run flow capability schedule raw))))
     \<and> (\<forall>r \<in> set (step_results (snd (run flow capability schedule raw))).
           \<exists>s c. r = execute capability s c)"
proof -
  let ?fresh = "\<lparr>run_input = raw, step_results = [], transitions = [],
                   final_output = None, status = running\<rparr> :: ('a, 'b) RunRecord"
  from assms obtain inp where v: "validate (input_schema flow) raw = Inr inp"
    by (cases "validate (input_schema flow) raw") (simp_all add: run_def)
  let ?ctx = "\<lparr>original = inp, outputs = []\<rparr>"
  obtain res rec where rs: "run_stages capability schedule (steps flow) ?ctx ?fresh = (res, rec)"
    by (cases "run_stages capability schedule (steps flow) ?ctx ?fresh")
  from assms v rs have c: "res = Inl nm"
    by (cases res) (simp_all add: run_def Let_def)
  from v rs c have t: "transitions (snd (run flow capability schedule raw)) = transitions rec"
    and s: "step_results (snd (run flow capability schedule raw)) = step_results rec"
    by (simp_all add: run_def Let_def)
  from run_stages_stopped [OF rs [unfolded c]] show ?thesis
    unfolding t s by simp
qed

lemma independent_research_names:
  "map step_name independent_research =
     [''Weather Research'', ''Destination Research'', ''Accommodation Research'',
      ''Transport Research'']"
  by (simp add: independent_research_def travel_workflow_def)

lemma travel_stage_names:
  "map stage_name (steps travel_workflow)
     = [''Independent Research'', ''Activities Curation'', ''Local Insights'',
        ''Budget Optimization'', ''Final Itinerary'']"
  by (simp add: travel_workflow_def)

lemma travel_step_order:
  "concat (map (stage_steps schedule) (steps travel_workflow))
     = map step_name (schedule independent_research)
       @ [''Activities Curation'', ''Local Insights'', ''Budget Optimization'',
          ''Final Itinerary'']"
  by (simp add: travel_workflow_def independent_research_def)

text \<open>
  C5. The declared stage list is, in this order, the Parallel group Independent
  Research with the members Weather Research, Destination Research, Accommodation
  Research and Transport Research, then the single steps Activities Curation, Local
  Insights, Budget Optimization and Final Itinerary. The stages execute strictly in
  this order, each beginning only after all earlier stages completed successfully:
  on every run the stages begun are an initial part of the list; a run that gives the
  final output has run every step of every stage in stage order and every step
  succeeded; a run that fails at a stage has run every step of the stages before it,
  in stage order and all successfully, then part of the failed stage, and the step
  run last is the one step that failed and the one the failure names; a run rejected
  by validation has begun no stage. Every step result is that of executing a step
  with the reasoning capability.
\<close>

theorem stages_declared_and_run_in_order:
  "map (\<lambda>st. case st of Parallel ms nm \<Rightarrow> (nm, Some (map step_name ms))
                        | Step s \<Rightarrow> (step_name s, None))
       (steps travel_workflow)
     = [(''Independent Research'',
           Some [''Weather Research'', ''Destination Research'',
                 ''Accommodation Research'', ''Transport Research'']),
        (''Activities Curation'', None),
        (''Local Insights'', None),
        (''Budget Optimization'', None),
        (''Final Itinerary'', None)]
   \<and> map fst (transitions (snd (run travel_workflow capability schedule raw)))
       = take (length (transitions (snd (run travel_workflow capability schedule raw))))
           [''Independent Research'', ''Activities Curation'', ''Local Insights'',
            ''Budget Optimization'', ''Final Itinerary'']
   \<and> list_all snd (butlast (transitions (snd (run travel_workflow capability schedule raw))))
   \<and> ((\<exists>out. fst (run travel_workflow capability schedule raw) = FinalOutput out)
        \<longrightarrow> transitions (snd (run travel_workflow capability schedule raw))
              = [(''Independent Research'', True), (''Activities Curation'', True),
                 (''Local Insights'', True), (''Budget Optimization'', True),
                 (''Final Itinerary'', True)]
          \<and> map result_step (step_results (snd (run travel_workflow capability schedule raw)))
              = map step_name (schedule independent_research)
                @ [''Activities Curation'', ''Local Insights'', ''Budget Optimization'',
                   ''Final Itinerary'']
          \<and> list_all (\<lambda>r. failure r = None)
               (step_results (snd (run travel_workflow capability schedule raw))))
   \<and> (\<forall>nm. fst (run travel_workflow capability schedule raw) = StageFailure nm
        \<longrightarrow> (\<exists>k part. k < 5
              \<and> transitions (snd (run travel_workflow capability schedule raw))
                  = map (\<lambda>n. (n, True))
                      (take k [''Independent Research'', ''Activities Curation'',
                               ''Local Insights'', ''Budget Optimization'',
                               ''Final Itinerary''])
                    @ [([''Independent Research'', ''Activities Curation'',
                         ''Local Insights'', ''Budget Optimization'',
                         ''Final Itinerary''] ! k, False)]
              \<and> part \<noteq> []
              \<and> prefix part (stage_steps schedule (steps travel_workflow ! k))
              \<and> map result_step
                    (step_results (snd (run travel_workflow capability schedule raw)))
                  = concat (map (stage_steps schedule) (take k (steps travel_workflow)))
                    @ part
              \<and> list_all (\<lambda>r. failure r = None)
                   (butlast (step_results (snd (run travel_workflow capability schedule raw))))
              \<and> failure (last (step_results
                   (snd (run travel_workflow capability schedule raw)))) \<noteq> None
              \<and> nm = result_step (last (step_results
                   (snd (run travel_workflow capability schedule raw))))))
   \<and> (\<forall>names. fst (run travel_workflow capability schedule raw) = ValidationError names
        \<longrightarrow> transitions (snd (run travel_workflow capability schedule raw)) = []
          \<and> step_results (snd (run travel_workflow capability schedule raw)) = [])
   \<and> (\<forall>r \<in> set (step_results (snd (run travel_workflow capability schedule raw))).
         \<exists>s c. r = execute capability s c)"
proof -
  let ?R = "run travel_workflow capability schedule raw"
  let ?names = "[''Independent Research'', ''Activities Curation'', ''Local Insights'',
                 ''Budget Optimization'', ''Final Itinerary'']"
  have d: "map (\<lambda>st. case st of Parallel ms nm \<Rightarrow> (nm, Some (map step_name ms))
                        | Step s \<Rightarrow> (step_name s, None))
       (steps travel_workflow)
     = [(''Independent Research'',
           Some [''Weather Research'', ''Destination Research'',
                 ''Accommodation Research'', ''Transport Research'']),
        (''Activities Curation'', None),
        (''Local Insights'', None),
        (''Budget Optimization'', None),
        (''Final Itinerary'', None)]"
    by (simp add: travel_workflow_def)
  have m: "map (\<lambda>st. (stage_name st, True)) (steps travel_workflow)
     = [(''Independent Research'', True), (''Activities Curation'', True),
        (''Local Insights'', True), (''Budget Optimization'', True),
        (''Final Itinerary'', True)]"
    by (simp add: travel_workflow_def)
  have len: "length (steps travel_workflow) = 5"
    by (simp add: travel_workflow_def)
  note log = run_log [of travel_workflow capability schedule raw, unfolded travel_stage_names m]
  have fin: "(\<exists>out. fst ?R = FinalOutput out)
        \<longrightarrow> transitions (snd ?R)
              = [(''Independent Research'', True), (''Activities Curation'', True),
                 (''Local Insights'', True), (''Budget Optimization'', True),
                 (''Final Itinerary'', True)]
          \<and> map result_step (step_results (snd ?R))
              = map step_name (schedule independent_research)
                @ [''Activities Curation'', ''Local Insights'', ''Budget Optimization'',
                   ''Final Itinerary'']
          \<and> list_all (\<lambda>r. failure r = None) (step_results (snd ?R))"
  proof
    assume "\<exists>out. fst ?R = FinalOutput out"
    then obtain out where "fst ?R = FinalOutput out" ..
    from run_final [OF this] show "transitions (snd ?R)
              = [(''Independent Research'', True), (''Activities Curation'', True),
                 (''Local Insights'', True), (''Budget Optimization'', True),
                 (''Final Itinerary'', True)]
          \<and> map result_step (step_results (snd ?R))
              = map step_name (schedule independent_research)
                @ [''Activities Curation'', ''Local Insights'', ''Budget Optimization'',
                   ''Final Itinerary'']
          \<and> list_all (\<lambda>r. failure r = None) (step_results (snd ?R))"
      unfolding m travel_step_order by simp
  qed
  have stop: "\<forall>nm. fst ?R = StageFailure nm
        \<longrightarrow> (\<exists>k part. k < 5
              \<and> transitions (snd ?R)
                  = map (\<lambda>n. (n, True)) (take k ?names) @ [(?names ! k, False)]
              \<and> part \<noteq> []
              \<and> prefix part (stage_steps schedule (steps travel_workflow ! k))
              \<and> map result_step (step_results (snd ?R))
                  = concat (map (stage_steps schedule) (take k (steps travel_workflow))) @ part
              \<and> list_all (\<lambda>r. failure r = None) (butlast (step_results (snd ?R)))
              \<and> failure (last (step_results (snd ?R))) \<noteq> None
              \<and> nm = result_step (last (step_results (snd ?R))))"
  proof (intro allI impI)
    fix nm
    assume "fst ?R = StageFailure nm"
    from run_stopped [OF this] obtain k part where
      k: "k < length (steps travel_workflow)"
      and t: "transitions (snd ?R)
         = map (\<lambda>st. (stage_name st, True)) (take k (steps travel_workflow))
           @ [(stage_name (steps travel_workflow ! k), False)]"
      and rest: "part \<noteq> []" "prefix part (stage_steps schedule (steps travel_workflow ! k))"
        "map result_step (step_results (snd ?R))
           = concat (map (stage_steps schedule) (take k (steps travel_workflow))) @ part"
        "list_all (\<lambda>r. failure r = None) (butlast (step_results (snd ?R)))"
        "failure (last (step_results (snd ?R))) \<noteq> None"
        "nm = result_step (last (step_results (snd ?R)))"
      by (elim exE conjE)
    have a: "map (\<lambda>st. (stage_name st, True)) (take k (steps travel_workflow))
        = map (\<lambda>n. (n, True)) (take k ?names)"
      unfolding travel_stage_names [symmetric] by (simp add: take_map comp_def)
    have b: "stage_name (steps travel_workflow ! k) = ?names ! k"
      unfolding travel_stage_names [symmetric] using k by simp
    from k len have "k < 5" by simp
    with t rest show "\<exists>k part. k < 5
              \<and> transitions (snd ?R)
                  = map (\<lambda>n. (n, True)) (take k ?names) @ [(?names ! k, False)]
              \<and> part \<noteq> []
              \<and> prefix part (stage_steps schedule (steps travel_workflow ! k))
              \<and> map result_step (step_results (snd ?R))
                  = concat (map (stage_steps schedule) (take k (steps travel_workflow))) @ part
              \<and> list_all (\<lambda>r. failure r = None) (butlast (step_results (snd ?R)))
              \<and> failure (last (step_results (snd ?R))) \<noteq> None
              \<and> nm = result_step (last (step_results (snd ?R)))"
      unfolding a b by blast
  qed
  have inv: "\<forall>names. fst ?R = ValidationError names
        \<longrightarrow> transitions (snd ?R) = [] \<and> step_results (snd ?R) = []"
    using run_invalid [of travel_workflow capability schedule raw] by blast
  have ex: "\<forall>r \<in> set (step_results (snd ?R)). \<exists>s c. r = execute capability s c"
  proof (cases "fst ?R")
    case (FinalOutput out)
    from run_final [OF this] show ?thesis by blast
  next
    case (StageFailure nm)
    from run_stopped [OF this] show ?thesis by blast
  next
    case (ValidationError names)
    from run_invalid(2) [OF this] show ?thesis by simp
  qed
  from d log fin stop inv ex show ?thesis
    by (intro conjI) blast+
qed


theorem stages_declared_and_run_in_order_witness:
  "fst (run travel_workflow echo id lisbon) = FinalOutput ''Booking Assistant''
   \<and> transitions (snd (run travel_workflow echo id lisbon))
       = [(''Independent Research'', True), (''Activities Curation'', True),
          (''Local Insights'', True), (''Budget Optimization'', True),
          (''Final Itinerary'', True)]
   \<and> map result_step (step_results (snd (run travel_workflow echo id lisbon)))
       = [''Weather Research'', ''Destination Research'', ''Accommodation Research'',
          ''Transport Research'', ''Activities Curation'', ''Local Insights'',
          ''Budget Optimization'', ''Final Itinerary'']
   \<and> list_all (\<lambda>r. failure r = None) (step_results (snd (run travel_workflow echo id lisbon)))
   \<and> fst (run travel_workflow busy id lisbon) = StageFailure ''Local Insights''
   \<and> result_step (last (step_results (snd (run travel_workflow busy id lisbon))))
       = ''Local Insights''
   \<and> failure (last (step_results (snd (run travel_workflow busy id lisbon)))) \<noteq> None"
proof -
  have f: "fst (run travel_workflow echo id lisbon) = FinalOutput ''Booking Assistant''"
    by code_simp
  then have e: "\<exists>out. fst (run travel_workflow echo id lisbon) = FinalOutput out"
    by blast
  have g: "fst (run travel_workflow busy id lisbon) = StageFailure ''Local Insights''"
    by code_simp
  note a = stages_declared_and_run_in_order [of echo id lisbon]
  note b = stages_declared_and_run_in_order [of busy id lisbon]
  from a e have "transitions (snd (run travel_workflow echo id lisbon))
       = [(''Independent Research'', True), (''Activities Curation'', True),
          (''Local Insights'', True), (''Budget Optimization'', True),
          (''Final Itinerary'', True)]
     \<and> map result_step (step_results (snd (run travel_workflow echo id lisbon)))
       = map step_name (id independent_research)
         @ [''Activities Curation'', ''Local Insights'', ''Budget Optimization'',
            ''Final Itinerary'']
     \<and> list_all (\<lambda>r. failure r = None) (step_results (snd (run travel_workflow echo id lisbon)))"
    by blast
  then have s: "transitions (snd (run travel_workflow echo id lisbon))
       = [(''Independent Research'', True), (''Activities Curation'', True),
          (''Local Insights'', True), (''Budget Optimization'', True),
          (''Final Itinerary'', True)]
     \<and> map result_step (step_results (snd (run travel_workflow echo id lisbon)))
       = [''Weather Research'', ''Destination Research'', ''Accommodation Research'',
          ''Transport Research'', ''Activities Curation'', ''Local Insights'',
          ''Budget Optimization'', ''Final Itinerary'']
     \<and> list_all (\<lambda>r. failure r = None) (step_results (snd (run travel_workflow echo id lisbon)))"
    by (simp add: independent_research_names)
  from b g have "result_step (last (step_results (snd (run travel_workflow busy id lisbon))))
       = ''Local Insights''
     \<and> failure (last (step_results (snd (run travel_workflow busy id lisbon)))) \<noteq> None"
    by metis
  with f s g show ?thesis by simp
qed

subsection \<open>Validation before the run\<close>

lemma conforms_Str: "conforms v Str = (\<exists>s. v = JStr s)"
  by (cases v) simp_all

lemma all_strings:
  "list_all (\<lambda>x. case x of JStr s \<Rightarrow> True | _ \<Rightarrow> False) ys = (\<exists>xs. ys = map JStr xs)"
proof (induction ys)
  case Nil
  then show ?case by simp
next
  case (Cons y ys)
  show ?case
  proof (cases y)
    case (JStr s)
    with Cons show ?thesis
      by (auto simp: map_eq_Cons_conv) (metis list.simps(9))
  qed (auto simp: Cons_eq_map_conv)
qed

lemma conforms_ListOfStr: "conforms v ListOfStr = (\<exists>xs. v = JArr (map JStr xs))"
  by (cases v) (simp_all add: all_strings)

lemma offending_empty:
  "(offending schema raw = []) = (\<forall>(f, ty) \<in> set schema. \<exists>v. raw f = Some v \<and> conforms v ty)"
  by (auto simp: offending_def filter_empty_conv split: option.splits)

lemma validate_accepts:
  "(\<exists>inp. validate schema raw = Inr inp) = (offending schema raw = [])"
  by (simp add: validate_def)

text \<open>
  C4. The schema has the twelve fields of \<^verbatim>\<open>TravelRequest\<close>. An input passes validation
  exactly when it gives a string for each of the eleven \<^verbatim>\<open>str\<close> fields and a list of
  strings for \<open>interests_activities\<close>. For every other input the run ends in a validation
  error that names the offending fields, with no step result, hence no tool call, and
  no stage begun, whatever the agents would have answered.
\<close>

theorem validation_gates_the_run:
  "map fst (input_schema travel_workflow) =
     [''destination'', ''travel_purpose'', ''travel_companions'', ''travel_dates'',
      ''departure_location'', ''date_flexibility'', ''accommodation_type'', ''budget'',
      ''interests_activities'', ''travel_style'', ''duration'', ''budget_flexibility'']
   \<and> ((\<exists>inp. validate (input_schema travel_workflow) raw = Inr inp) =
        ((\<forall>f \<in> set [''destination'', ''travel_purpose'', ''travel_companions'',
                      ''travel_dates'', ''departure_location'', ''date_flexibility'',
                      ''accommodation_type'', ''budget'', ''travel_style'', ''duration'',
                      ''budget_flexibility''].
            \<exists>s. raw f = Some (JStr s))
         \<and> (\<exists>xs. raw ''interests_activities'' = Some (JArr (map JStr xs)))))
   \<and> ((\<nexists>inp. validate (input_schema travel_workflow) raw = Inr inp) \<longrightarrow>
        offending TravelRequest raw \<noteq> []
        \<and> run travel_workflow capability schedule raw =
            (ValidationError (offending TravelRequest raw),
             \<lparr>run_input = raw, step_results = [], transitions = [],
               final_output = None, status = failed\<rparr>))"
proof (intro conjI impI)
  have s: "input_schema travel_workflow = TravelRequest"
    by (simp add: travel_workflow_def)
  show "map fst (input_schema travel_workflow) =
     [''destination'', ''travel_purpose'', ''travel_companions'', ''travel_dates'',
      ''departure_location'', ''date_flexibility'', ''accommodation_type'', ''budget'',
      ''interests_activities'', ''travel_style'', ''duration'', ''budget_flexibility'']"
    unfolding s by (simp add: TravelRequest_def)
  show "(\<exists>inp. validate (input_schema travel_workflow) raw = Inr inp) =
        ((\<forall>f \<in> set [''destination'', ''travel_purpose'', ''travel_companions'',
                      ''travel_dates'', ''departure_location'', ''date_flexibility'',
                      ''accommodation_type'', ''budget'', ''travel_style'', ''duration'',
                      ''budget_flexibility''].
            \<exists>s. raw f = Some (JStr s))
         \<and> (\<exists>xs. raw ''interests_activities'' = Some (JArr (map JStr xs))))"
    unfolding s validate_accepts offending_empty
    by (simp add: TravelRequest_def conforms_Str conforms_ListOfStr) blast
  {
    assume r: "\<nexists>inp. validate (input_schema travel_workflow) raw = Inr inp"
    then have o: "offending TravelRequest raw \<noteq> []"
      unfolding s validate_accepts .
    then show "offending TravelRequest raw \<noteq> []" .
    from o have "validate (input_schema travel_workflow) raw = Inl (offending TravelRequest raw)"
      unfolding s by (simp add: validate_def)
    then show "run travel_workflow capability schedule raw =
            (ValidationError (offending TravelRequest raw),
             \<lparr>run_input = raw, step_results = [], transitions = [],
               final_output = None, status = failed\<rparr>)"
      by (rule run_rejected)
  }
qed

theorem validation_gates_the_run_witness:
  "validate (input_schema travel_workflow) no_budget = Inl [''budget'']
   \<and> run travel_workflow echo id no_budget =
       (ValidationError [''budget''],
        \<lparr>run_input = no_budget, step_results = [], transitions = [],
          final_output = None, status = failed\<rparr>)
   \<and> validate (input_schema travel_workflow) lisbon = Inr lisbon"
proof -
  have s: "input_schema travel_workflow = TravelRequest"
    by (simp add: travel_workflow_def)
  have o: "offending TravelRequest no_budget = [''budget'']"
    by code_simp
  have g: "offending TravelRequest lisbon = []"
    by code_simp
  have v: "validate (input_schema travel_workflow) no_budget = Inl [''budget'']"
    unfolding s by (simp add: validate_def o)
  have a: "validate (input_schema travel_workflow) lisbon = Inr lisbon"
    unfolding s by (simp add: validate_def g)
  from v have "\<nexists>inp. validate (input_schema travel_workflow) no_budget = Inr inp"
    by simp
  with validation_gates_the_run [of no_budget echo id]
  have "run travel_workflow echo id no_budget =
            (ValidationError (offending TravelRequest no_budget),
             \<lparr>run_input = no_budget, step_results = [], transitions = [],
               final_output = None, status = failed\<rparr>)"
    by blast
  with v a o show ?thesis by simp
qed

subsection \<open>Merge order of the parallel group\<close>

lemma until_failure_all_succeed:
  "\<forall>r \<in> set rs. failure r = None \<Longrightarrow> until_failure rs = rs"
  by (induction rs) simp_all

lemma find_own_result:
  assumes "s \<in> set finished" and "inj_on step_name (set finished)"
  shows "find (\<lambda>r. result_step r = step_name s) (map (\<lambda>s. execute capability s snap) finished)
           = Some (execute capability s snap)"
  using assms
proof (induction finished)
  case Nil
  then show ?case by simp
next
  case (Cons x xs)
  show ?case
  proof (cases "step_name x = step_name s")
    case True
    with Cons.prems have "x = s"
      by (auto dest: inj_onD)
    then show ?thesis by (simp add: result_step_execute)
  next
    case False
    with Cons.prems have "s \<in> set xs" and "inj_on step_name (set xs)"
      by auto
    with Cons.IH False show ?thesis
      by (simp add: result_step_execute)
  qed
qed

lemma map_filter_total:
  "\<forall>x \<in> set xs. f x = Some (g x) \<Longrightarrow> List.map_filter f xs = map g xs"
  by (induction xs) (simp_all add: map_filter_simps)

text \<open>
  Whatever the completion order, a group whose members all succeed hands on the context
  extended by the members' outputs in declared order.
\<close>

lemma group_merges_in_declared_order:
  assumes perm: "mset (schedule members) = mset members"
    and names: "distinct (map step_name members)"
    and ok: "\<forall>s \<in> set members. failure (execute capability s (ctx\<lparr>outputs := []\<rparr>)) = None"
  shows "exec_stage capability schedule ctx (Parallel members nm) =
     (map (\<lambda>s. execute capability s (ctx\<lparr>outputs := []\<rparr>)) (schedule members),
      Inr (ctx\<lparr>outputs := outputs ctx @
             map (\<lambda>s. (step_name s, payload (execute capability s (ctx\<lparr>outputs := []\<rparr>))))
               members\<rparr>))"
proof -
  let ?snap = "ctx\<lparr>outputs := []\<rparr>"
  let ?rs = "map (\<lambda>s. execute capability s ?snap) (schedule members)"
  from perm have st: "set (schedule members) = set members"
    by (rule mset_eq_setD)
  from names have inj: "inj_on step_name (set members)"
    by (simp add: distinct_map)
  from ok st have all: "\<forall>r \<in> set ?rs. failure r = None"
    by auto
  then have g: "execute_group capability (schedule members) ctx = ?rs"
    by (simp add: execute_group_def until_failure_all_succeed)
  from all have nf: "find (\<lambda>r. failure r \<noteq> None) ?rs = None"
    by (simp add: find_None_iff)
  have "\<forall>s \<in> set members.
          map_option (\<lambda>r. (step_name s, payload r))
            (find (\<lambda>r. result_step r = step_name s) ?rs)
          = Some (step_name s, payload (execute capability s ?snap))"
    using st inj by (simp add: find_own_result)
  then have m: "merge members ?rs ctx =
      ctx\<lparr>outputs := outputs ctx @
             map (\<lambda>s. (step_name s, payload (execute capability s ?snap))) members\<rparr>"
    unfolding merge_def by (simp add: map_filter_total)
  show ?thesis
    by (simp only: exec_stage.simps g Let_def nf m option.case)
qed

lemma independent_research_stage:
  "hd (steps travel_workflow) = Parallel independent_research ''Independent Research''"
  by (simp add: independent_research_def travel_workflow_def)

text \<open>
  C6. When all four members of Independent Research succeed, the stage merges their
  outputs into the context in the declared member order, Weather Research,
  Destination Research, Accommodation Research, Transport Research, and the keys it
  adds are exactly these four names. The context handed on is the same for any two
  completion orders of the members.
\<close>

theorem research_merged_in_declared_order:
  assumes "mset (schedule independent_research) = mset independent_research"
    and "mset (schedule' independent_research) = mset independent_research"
    and "\<forall>s \<in> set independent_research.
           failure (execute capability s (ctx\<lparr>outputs := []\<rparr>)) = None"
  shows "\<exists>ctx'. snd (exec_stage capability schedule ctx (hd (steps travel_workflow))) = Inr ctx'
     \<and> snd (exec_stage capability schedule' ctx (hd (steps travel_workflow))) = Inr ctx'
     \<and> outputs ctx' = outputs ctx @
          map (\<lambda>s. (step_name s, payload (execute capability s (ctx\<lparr>outputs := []\<rparr>))))
            independent_research
     \<and> map fst (drop (length (outputs ctx)) (outputs ctx')) =
          [''Weather Research'', ''Destination Research'', ''Accommodation Research'',
           ''Transport Research'']"
proof -
  let ?ctx' = "ctx\<lparr>outputs := outputs ctx @
          map (\<lambda>s. (step_name s, payload (execute capability s (ctx\<lparr>outputs := []\<rparr>))))
            independent_research\<rparr>"
  have d: "distinct (map step_name independent_research)"
    unfolding independent_research_names by simp
  have "snd (exec_stage capability schedule ctx (hd (steps travel_workflow))) = Inr ?ctx'"
    unfolding independent_research_stage
    using group_merges_in_declared_order
      [where schedule = schedule and members = independent_research, OF assms(1) d assms(3)]
    by simp
  moreover
  have "snd (exec_stage capability schedule' ctx (hd (steps travel_workflow))) = Inr ?ctx'"
    unfolding independent_research_stage
    using group_merges_in_declared_order
      [where schedule = schedule' and members = independent_research, OF assms(2) d assms(3)]
    by simp
  moreover
  have "map fst (drop (length (outputs ctx)) (outputs ?ctx')) =
          [''Weather Research'', ''Destination Research'', ''Accommodation Research'',
           ''Transport Research'']"
    using independent_research_names by (simp add: comp_def)
  ultimately show ?thesis
    by (intro exI [of _ ?ctx']) simp
qed

theorem research_merged_in_declared_order_witness:
  "mset (rev independent_research) = mset independent_research
   \<and> (\<exists>ctx'. snd (exec_stage echo id \<lparr>original = lisbon, outputs = []\<rparr>
                     (hd (steps travel_workflow))) = Inr ctx'
        \<and> snd (exec_stage echo rev \<lparr>original = lisbon, outputs = []\<rparr>
                     (hd (steps travel_workflow))) = Inr ctx'
        \<and> map fst (outputs ctx') =
             [''Weather Research'', ''Destination Research'', ''Accommodation Research'',
              ''Transport Research''])"
proof -
  let ?c = "\<lparr>original = lisbon, outputs = []\<rparr>"
  have p: "mset (id independent_research) = mset independent_research"
    and q: "mset (rev independent_research) = mset independent_research"
    by simp_all
  have ok: "\<forall>s \<in> set independent_research. failure (execute echo s (?c\<lparr>outputs := []\<rparr>)) = None"
    by (simp add: execute_def respond_def echo_def split: option.split)
  from research_merged_in_declared_order
    [where schedule = id and schedule' = rev and capability = echo and ctx = ?c, OF p q ok]
  obtain ctx' where
    a: "snd (exec_stage echo id ?c (hd (steps travel_workflow))) = Inr ctx'"
    and b: "snd (exec_stage echo rev ?c (hd (steps travel_workflow))) = Inr ctx'"
    and k: "map fst (drop (length (outputs ?c)) (outputs ctx')) =
          [''Weather Research'', ''Destination Research'', ''Accommodation Research'',
           ''Transport Research'']"
    by (elim exE conjE)
  from k have k': "map fst (outputs ctx') =
          [''Weather Research'', ''Destination Research'', ''Accommodation Research'',
           ''Transport Research'']"
    by simp
  have e: "\<exists>ctx'. snd (exec_stage echo id ?c (hd (steps travel_workflow))) = Inr ctx'
        \<and> snd (exec_stage echo rev ?c (hd (steps travel_workflow))) = Inr ctx'
        \<and> map fst (outputs ctx') =
             [''Weather Research'', ''Destination Research'', ''Accommodation Research'',
              ''Transport Research'']"
    by (rule exI [of _ ctx'], intro conjI) (rule a, rule b, rule k')
  from q e show ?thesis
    by (rule conjI)
qed

subsection \<open>Fallback between tools\<close>











end
